theory Spec2Isabelle
  imports Complex_Main "HOL-Library.Word"
begin

section \<open>Errors and numbers\<close>

text \<open>
  A JavaScript \<^verbatim>\<open>Error\<close> carries its message; \<^verbatim>\<open>throw\<close> is the left injection of
  a sum. Values of type \<^verbatim>\<open>number\<close> are modelled by exact rationals, integers held in a
  \<^verbatim>\<open>BN\<close> by \<^typ>\<open>int\<close>. The constructor \<^verbatim>\<open>new BN(n)\<close> of bn.js asserts that a number \<open>n\<close>
  is below \<open>2 ^ 53\<close> and throws \<^verbatim>\<open>Assertion failed\<close> otherwise; below that bound sums
  of integers are exact in a \<^verbatim>\<open>number\<close>. \<^verbatim>\<open>NaN\<close> and the infinities, for which the
  assertion fails as well, have no counterpart among the rationals.
\<close>

datatype error = Error (message: string)

definition bn_mod :: "int \<Rightarrow> int \<Rightarrow> int" where
  \<comment> \<open>\<^verbatim>\<open>BN.mod\<close>: the remainder of the truncated division, with the sign of the dividend\<close>
  "bn_mod a b = sgn a * (\<bar>a\<bar> mod \<bar>b\<bar>)"

section \<open>Winner selection (VRF.ts)\<close>

record TraderVolume =
  walletAddress :: string
  volumeUsd :: rat

record selection =
  winner :: string
  winnerIndex :: nat
  totalWeight :: int
  selectionValue :: int

definition weightOf :: "TraderVolume \<Rightarrow> int" where
  \<comment> \<open>\<^verbatim>\<open>Math.max(1, Math.floor(trader.volumeUsd))\<close>\<close>
  "weightOf trader = max 1 \<lfloor>volumeUsd trader\<rfloor>"

text \<open>
  The \<^verbatim>\<open>for\<close> loop of \<^verbatim>\<open>selectWinnerFromTraders\<close>: \<open>walk ws sel cum i\<close> runs the
  iterations from index \<open>i\<close> on, \<open>ws\<close> being the weights not yet visited and \<open>cum\<close>
  the value of \<^verbatim>\<open>cumulativeWeight\<close>. \<open>None\<close> means that the loop ran off the end
  of the list without returning.
\<close>

fun walk :: "int list \<Rightarrow> int \<Rightarrow> int \<Rightarrow> nat \<Rightarrow> nat option" where
  "walk [] sel cum i = None"
| "walk (w # ws) sel cum i =
     (let cum' = cum + w in
      if sel < cum' then Some i else walk ws sel cum' (Suc i))"

text \<open>
  The function throws in two places: at its first line for an empty list, and in
  \<^verbatim>\<open>new BN(totalWeight)\<close> when the total weight is not below \<open>2 ^ 53\<close>.
\<close>

definition selectWinnerFromTraders :: "TraderVolume list \<Rightarrow> int \<Rightarrow> error + selection" where
  "selectWinnerFromTraders traders randomValue =
     (if length traders = 0 then Inl (Error ''No traders provided.'')
      else
        let weights = map weightOf traders;
            total = foldl (\<lambda>sum weight. sum + weight) 0 weights
        in if 2 ^ 53 \<le> total then Inl (Error ''Assertion failed'')
           else
             let sel = bn_mod randomValue total
             in case walk weights sel 0 0 of
                  Some i \<Rightarrow>
                    Inr \<lparr>winner = walletAddress (traders ! i), winnerIndex = i,
                         totalWeight = total, selectionValue = sel\<rparr>
                | None \<Rightarrow>
                    let lastIndex = length traders - 1 in
                    Inr \<lparr>winner = walletAddress (traders ! lastIndex), winnerIndex = lastIndex,
                         totalWeight = total, selectionValue = sel\<rparr>)"

section \<open>The world the worker acts on\<close>

text \<open>
  The two module variables of \<^verbatim>\<open>worker.ts\<close>, \<^verbatim>\<open>isLotteryRunning\<close> and
  \<^verbatim>\<open>currentPotSize\<close>, are the state. Two more fields are bookkeeping and are never
  read by a decision of the code: \<open>generated\<close> counts the calls of
  \<^verbatim>\<open>Keypair.generate()\<close>, and \<open>trace\<close> records, in order, the calls made to the
  chain, the oracle, the timer and the database, and the call of the \<^verbatim>\<open>PublicKey\<close>
  constructor with the trader the scheduler has chosen.
\<close>

type_synonym account = nat
type_synonym byte = "8 word"
type_synonym claim_tx = nat

datatype event =
    CreateTx account            \<comment> \<open>create-and-fund transaction of a randomness account\<close>
  | CommitTx account            \<comment> \<open>commit transaction\<close>
  | Poll account nat            \<comment> \<open>\<^verbatim>\<open>loadData\<close> in \<^verbatim>\<open>waitForFulfillment\<close>, with the attempt\<close>
  | Sleep nat                   \<comment> \<open>\<^verbatim>\<open>sleep(ms)\<close>\<close>
  | RevealTx account            \<comment> \<open>reveal transaction\<close>
  | LoadResult account          \<comment> \<open>\<^verbatim>\<open>loadData\<close> in \<^verbatim>\<open>consumeRandomness\<close>\<close>
  | QueryPositions              \<comment> \<open>\<^verbatim>\<open>getAllClaimablePositions\<close>\<close>
  | BuildClaim nat              \<comment> \<open>\<^verbatim>\<open>getClaimTransaction\<close> for target position \<open>i\<close>\<close>
  | ClaimAttempt nat nat        \<comment> \<open>the \<^verbatim>\<open>try\<close> block for transaction \<open>j\<close> of position \<open>i\<close> is entered\<close>
  | ClaimSend nat nat           \<comment> \<open>\<^verbatim>\<open>sendTransaction\<close> for transaction \<open>j\<close> of position \<open>i\<close>\<close>
  | ClaimConfirmed nat nat      \<comment> \<open>that transaction was confirmed without error\<close>
  | StatusUpsert rat bool       \<comment> \<open>status document written with pot size and running flag\<close>
  | FetchTraders
  | NewPublicKey "TraderVolume option"  \<comment> \<open>\<^verbatim>\<open>new PublicKey(traders[winnerIndex])\<close> with its argument\<close>
  | PayoutTx string int         \<comment> \<open>transfer to the winner\<close>
  | SwapQuote rat
  | SwapTx
  | BurnTx nat
  | InsertReceipt rat string

record world =
  isLotteryRunning :: bool
  currentPotSize :: rat
  generated :: nat
  trace :: "event list"

definition emit :: "event \<Rightarrow> world \<Rightarrow> world" where
  "emit ev s = s\<lparr>trace := trace s @ [ev]\<rparr>"

definition now :: "world \<Rightarrow> nat" where
  \<comment> \<open>the clock of the outside world: one step per recorded call\<close>
  "now s = length (trace s)"

section \<open>The randomness protocol client (VRF.ts)\<close>

record current_round =
  result :: "byte list option"

record randomness_data =
  currentRound :: "current_round option"

text \<open>
  What the outside world answers. \<open>sbProgram\<close> and \<open>queueAccount\<close> say whether
  \<^verbatim>\<open>initializeVRF\<close> has set the module variables of these names; the other fields
  are the outcomes of the calls \<^verbatim>\<open>requestVRF\<close>, \<^verbatim>\<open>waitForFulfillment\<close>,
  \<^verbatim>\<open>revealRandomness\<close> and \<^verbatim>\<open>consumeRandomness\<close> make, \<open>None\<close> or \<open>Inr\<close> for
  success. The account data read by \<^verbatim>\<open>loadData\<close> depends on the time of the read.
\<close>

record vrf_env =
  sbProgram :: bool
  queueAccount :: bool
  keypair :: "nat \<Rightarrow> account"
  randomnessCreate :: "account \<Rightarrow> error option"
  rentExemption :: "account \<Rightarrow> error option"
  createTx :: "account \<Rightarrow> error + string"
  accountInfo :: "account \<Rightarrow> error + bool"
  commitIx :: "account \<Rightarrow> error option"
  commitTx :: "account \<Rightarrow> error + string"
  loadData :: "account \<Rightarrow> nat \<Rightarrow> error + randomness_data"
  revealTx :: "account \<Rightarrow> error + string"

definition all_zero :: "byte list \<Rightarrow> bool" where
  \<comment> \<open>\<^verbatim>\<open>buf.every((byte) => byte === 0)\<close>\<close>
  "all_zero buf = list_all (\<lambda>byte. byte = 0) buf"

definition fulfilled :: "randomness_data \<Rightarrow> bool" where
  \<comment> \<open>\<^verbatim>\<open>data.currentRound?.result && !data.currentRound.result.every(...)\<close>\<close>
  "fulfilled d =
     (case currentRound d of
        None \<Rightarrow> False
      | Some r \<Rightarrow> (case result r of None \<Rightarrow> False | Some buf \<Rightarrow> \<not> all_zero buf))"

definition bn_of_bytes :: "byte list \<Rightarrow> nat" where
  \<comment> \<open>\<^verbatim>\<open>new BN(bytes)\<close>: the bytes read as a big-endian unsigned integer\<close>
  "bn_of_bytes bs = foldl (\<lambda>acc b. acc * 256 + unat b) 0 bs"

fun pollLoop :: "vrf_env \<Rightarrow> account \<Rightarrow> nat \<Rightarrow> nat \<Rightarrow> nat \<Rightarrow> world \<Rightarrow> bool \<times> world" where
  "pollLoop env acct delayMs attempt 0 s = (False, s)"
| "pollLoop env acct delayMs attempt (Suc n) s =
     (let s1 = emit (Poll acct attempt) s in
      case loadData env acct (now s) of
        Inr d \<Rightarrow>
          if fulfilled d then (True, s1)
          else pollLoop env acct delayMs (Suc attempt) n (emit (Sleep delayMs) s1)
      | Inl err \<Rightarrow> pollLoop env acct delayMs (Suc attempt) n (emit (Sleep delayMs) s1))"

definition waitForFulfillment ::
  "vrf_env \<Rightarrow> account \<Rightarrow> nat \<Rightarrow> nat \<Rightarrow> world \<Rightarrow> (error + bool) \<times> world" where
  "waitForFulfillment env randomnessAccount maxRetries delayMs s =
     (if \<not> sbProgram env
      then (Inl (Error ''VRF not initialized. Call initializeVRF first.''), s)
      else case pollLoop env randomnessAccount delayMs 1 maxRetries s of
             (b, s') \<Rightarrow> (Inr b, s'))"

definition requestVRF :: "vrf_env \<Rightarrow> world \<Rightarrow> (error + string \<times> account) \<times> world" where
  "requestVRF env s =
     (if \<not> sbProgram env \<or> \<not> queueAccount env then (Inl (Error ''VRF not initialized.''), s)
      else
        let rngKp = keypair env (generated s);
            s1 = s\<lparr>generated := Suc (generated s)\<rparr>
        in case randomnessCreate env rngKp of
             Some err \<Rightarrow>
               (Inl (Error (''Failed to create randomness account: '' @ message err)), s1)
           | None \<Rightarrow>
        (case rentExemption env rngKp of
             Some err \<Rightarrow> (Inl err, s1)
           | None \<Rightarrow>
        (let s2 = emit (CreateTx rngKp) s1 in
         case createTx env rngKp of
             Inl err \<Rightarrow>
               (Inl (Error (''Failed to create randomness account on-chain: '' @ message err)), s2)
           | Inr createSignature \<Rightarrow>
        (case accountInfo env rngKp of
             Inl err \<Rightarrow> (Inl err, s2)
           | Inr False \<Rightarrow>
               (Inl (Error ''Randomness account not found after create transaction''), s2)
           | Inr True \<Rightarrow>
        (case commitIx env rngKp of
             Some err \<Rightarrow>
               (Inl (Error (''Failed to generate commit instruction: '' @ message err)), s2)
           | None \<Rightarrow>
        (let s3 = emit (CommitTx rngKp) s2 in
         case commitTx env rngKp of
             Inl err \<Rightarrow> (Inl (Error (''VRF commit transaction failed: '' @ message err)), s3)
           | Inr commitSignature \<Rightarrow> (Inr (commitSignature, rngKp), s3)))))))"

definition revealRandomness :: "vrf_env \<Rightarrow> account \<Rightarrow> world \<Rightarrow> (error + string) \<times> world" where
  "revealRandomness env randomnessAccount s =
     (if \<not> sbProgram env then (Inl (Error ''VRF not initialized.''), s)
      else (revealTx env randomnessAccount, emit (RevealTx randomnessAccount) s))"

definition consumeRandomness :: "vrf_env \<Rightarrow> account \<Rightarrow> world \<Rightarrow> (error + nat) \<times> world" where
  "consumeRandomness env randomnessAccount s =
     (if \<not> sbProgram env then (Inl (Error ''VRF not initialized.''), s)
      else
        let s1 = emit (LoadResult randomnessAccount) s in
        case loadData env randomnessAccount (now s) of
          Inl err \<Rightarrow> (Inl err, s1)
        | Inr d \<Rightarrow>
            (case currentRound d of
               None \<Rightarrow> (Inl (Error ''Randomness not revealed.''), s1)
             | Some r \<Rightarrow>
                 (case result r of
                    None \<Rightarrow> (Inl (Error ''Randomness not revealed.''), s1)
                  | Some resultBuffer \<Rightarrow>
                      if all_zero resultBuffer then (Inl (Error ''Randomness result empty.''), s1)
                      else (Inr (bn_of_bytes (take 8 resultBuffer)), s1))))"

text \<open>
  The body of the \<^verbatim>\<open>try\<close> block of \<^verbatim>\<open>executeVRFWorkflow\<close>, with the default
  arguments of \<^verbatim>\<open>waitForFulfillment\<close> (30 attempts, 5000 ms).
\<close>

definition vrfAttempt :: "vrf_env \<Rightarrow> world \<Rightarrow> (error + nat) \<times> world" where
  "vrfAttempt env s =
     (case requestVRF env s of
        (Inl err, s1) \<Rightarrow> (Inl err, s1)
      | (Inr (sig, acct), s1) \<Rightarrow>
     (case waitForFulfillment env acct 30 5000 s1 of
        (Inl err, s2) \<Rightarrow> (Inl err, s2)
      | (Inr False, s2) \<Rightarrow> (Inl (Error ''Oracle failed to fulfill randomness.''), s2)
      | (Inr True, s2) \<Rightarrow>
     (case revealRandomness env acct s2 of
        (Inl err, s3) \<Rightarrow> (Inl err, s3)
      | (Inr revealSig, s3) \<Rightarrow> consumeRandomness env acct s3)))"

fun workflowLoop :: "vrf_env \<Rightarrow> nat \<Rightarrow> nat \<Rightarrow> nat \<Rightarrow> world \<Rightarrow> (error + nat) \<times> world" where
  "workflowLoop env maxRetries attempt 0 s =
     (Inl (Error ''VRF workflow failed after retries.''), s)"
| "workflowLoop env maxRetries attempt (Suc n) s =
     (case vrfAttempt env s of
        (Inr randomValue, s') \<Rightarrow> (Inr randomValue, s')
      | (Inl err, s') \<Rightarrow>
          if attempt = maxRetries
          then (Inl (Error (''VRF workflow failed: '' @ message err)), s')
          else workflowLoop env maxRetries (Suc attempt) n
                 (emit (Sleep (2 ^ attempt * 1000)) s'))"

definition executeVRFWorkflow :: "vrf_env \<Rightarrow> nat \<Rightarrow> world \<Rightarrow> (error + nat) \<times> world" where
  "executeVRFWorkflow env maxRetries s = workflowLoop env maxRetries 1 maxRetries s"

section \<open>The fee claim monitor (worker.ts)\<close>

text \<open>
  A claimable position as the fee SDK returns it. The two claimable amounts are tested
  for truthiness before they are added: \<open>None\<close> stands for a missing or falsy field.
  The share of a custom fee vault is the exact product here; the code computes it in
  floating point, where it can differ from the exact product in the last digit.
\<close>

record position =
  baseMint :: string
  virtualPoolClaimableAmount :: "rat option"
  dammPoolClaimableAmount :: "rat option"
  isCustomFeeVault :: bool
  customFeeVaultBalance :: rat
  customFeeVaultBps :: rat

text \<open>
  The answers of the SDK, the chain, the database and the swap service during one tick
  of the worker, and the two configuration values the code reads. \<open>newPublicKey\<close> is the
  \<^verbatim>\<open>PublicKey\<close> constructor applied to \<^verbatim>\<open>traders[winnerIndex]\<close>, an element of the list
  that \<^verbatim>\<open>getTradersWallet\<close> returned (\<open>None\<close> for an index outside the list).
\<close>

record env =
  vrf :: vrf_env
  PROJECT_TOKEN_MINT_ADDRESS :: string
  LOTTERY_POT_THRESHOLD :: rat
  getAllClaimablePositions :: "error + position list"
  getClaimTransaction :: "nat \<Rightarrow> position \<Rightarrow> error + claim_tx list option"
  txSign :: "claim_tx \<Rightarrow> error option"
  latestBlockhash :: "claim_tx \<Rightarrow> error option"
  sendTransaction :: "claim_tx \<Rightarrow> error + string"
  confirmTransaction :: "claim_tx \<Rightarrow> error + string option"
  updateStatus :: "error option"
  getTradersWallet :: "error + TraderVolume list"
  newPublicKey :: "TraderVolume option \<Rightarrow> error + string"
  payoutTx :: "error + string"
  mintKey :: "error option"
  quote :: "error + string option"
  swapBuild :: "error option"
  swapTx :: "error + string"
  tokenBalance :: "error + nat"
  burnTx :: "error + string"
  insertReceipt :: "error option"

definition addPosition :: "rat \<Rightarrow> position \<Rightarrow> rat" where
  \<comment> \<open>what the \<^verbatim>\<open>forEach\<close> callback adds to \<^verbatim>\<open>currentPotSize\<close> for one position\<close>
  "addPosition pot p =
     (let pot1 = (case virtualPoolClaimableAmount p of Some virtualAmount \<Rightarrow> pot + virtualAmount
                  | None \<Rightarrow> pot);
          pot2 = (case dammPoolClaimableAmount p of Some dammAmount \<Rightarrow> pot1 + dammAmount
                  | None \<Rightarrow> pot1)
      in if isCustomFeeVault p
         then pot2 + customFeeVaultBalance p * (customFeeVaultBps p / 10000)
         else pot2)"

definition claimableSum :: "position list \<Rightarrow> rat" where
  "claimableSum targetPositions = foldl addPosition 0 targetPositions"

definition sendClaim :: "env \<Rightarrow> nat \<Rightarrow> nat \<Rightarrow> claim_tx \<Rightarrow> world \<Rightarrow> world" where
  \<comment> \<open>the \<^verbatim>\<open>try\<close>/\<^verbatim>\<open>catch\<close> around one claim transaction: every error is logged and dropped\<close>
  "sendClaim e i j transaction s =
     (let s1 = emit (ClaimAttempt i j) s in
      case txSign e transaction of
        Some err \<Rightarrow> s1
      | None \<Rightarrow>
     (case latestBlockhash e transaction of
        Some err \<Rightarrow> s1
      | None \<Rightarrow>
     (let s2 = emit (ClaimSend i j) s1 in
      case sendTransaction e transaction of
        Inl err \<Rightarrow> s2
      | Inr txSignature \<Rightarrow>
     (case confirmTransaction e transaction of
        Inl err \<Rightarrow> s2
      | Inr (Some confirmErr) \<Rightarrow> s2
      | Inr None \<Rightarrow> emit (ClaimConfirmed i j) s2))))"

fun txLoop :: "env \<Rightarrow> nat \<Rightarrow> nat \<Rightarrow> claim_tx list \<Rightarrow> world \<Rightarrow> world" where
  "txLoop e i j [] s = s"
| "txLoop e i j (transaction # rest) s = txLoop e i (Suc j) rest (sendClaim e i j transaction s)"

fun positionLoop :: "env \<Rightarrow> nat \<Rightarrow> position list \<Rightarrow> world \<Rightarrow> error option \<times> world" where
  "positionLoop e i [] s = (None, s)"
| "positionLoop e i (p # ps) s =
     (let s1 = emit (BuildClaim i) s in
      case getClaimTransaction e i p of
        Inl err \<Rightarrow> (Some err, s1)
      | Inr None \<Rightarrow> positionLoop e (Suc i) ps s1
      | Inr (Some claimTransactions) \<Rightarrow>
          if length claimTransactions = 0 then positionLoop e (Suc i) ps s1
          else positionLoop e (Suc i) ps (txLoop e i 0 claimTransactions s1))"

definition claimFeesBody :: "env \<Rightarrow> string \<Rightarrow> world \<Rightarrow> (error + bool) \<times> world" where
  \<comment> \<open>the \<^verbatim>\<open>try\<close> block of \<^verbatim>\<open>claimFeesForToken\<close>; \<open>Inl\<close> is an exception leaving it\<close>
  "claimFeesBody e tokenMint s =
     (let s0 = emit QueryPositions s in
      case getAllClaimablePositions e of
        Inl err \<Rightarrow> (Inl err, s0)
      | Inr allPositions \<Rightarrow>
          if length allPositions = 0 then (Inr False, s0\<lparr>currentPotSize := 0\<rparr>)
          else
            let targetPositions = filter (\<lambda>position. baseMint position = tokenMint) allPositions
            in if length targetPositions = 0 then (Inr False, s0\<lparr>currentPotSize := 0\<rparr>)
               else
                 let s1 = s0\<lparr>currentPotSize := claimableSum targetPositions\<rparr>
                 in if currentPotSize s1 < LOTTERY_POT_THRESHOLD e then (Inr False, s1)
                    else (case positionLoop e 0 targetPositions s1 of
                            (Some err, s2) \<Rightarrow> (Inl err, s2)
                          | (None, s2) \<Rightarrow> (Inr True, s2)))"

definition claimFeesForToken :: "env \<Rightarrow> string \<Rightarrow> world \<Rightarrow> bool \<times> world" where
  "claimFeesForToken e tokenMint s =
     (case claimFeesBody e tokenMint s of
        (Inl err, s') \<Rightarrow> (False, s')
      | (Inr claimed, s') \<Rightarrow> (claimed, s'))"

section \<open>The payout pipeline and the scheduler (worker.ts)\<close>

definition processLotteryBody :: "env \<Rightarrow> string \<Rightarrow> rat \<Rightarrow> world \<Rightarrow> (error + unit) \<times> world" where
  \<comment> \<open>the \<^verbatim>\<open>try\<close> block of \<^verbatim>\<open>processLottery\<close>, \<^verbatim>\<open>PAYOUT_PERCENTAGE\<close> being 0.25\<close>
  "processLotteryBody e winnerWallet potSize s =
     (let payoutAmount = \<lfloor>potSize * (1 / 4)\<rfloor>;
          s1 = emit (PayoutTx winnerWallet payoutAmount) s
      in case payoutTx e of
           Inl err \<Rightarrow> (Inl err, s1)
         | Inr payoutSig \<Rightarrow>
      (let burnAmountInSOL = potSize - of_int payoutAmount
       in case mintKey e of
            Some err \<Rightarrow> (Inl (Error (''Invalid PROJECT_TOKEN_MINT_ADDRESS: '' @ message err)), s1)
          | None \<Rightarrow>
      (let s2 = emit (SwapQuote burnAmountInSOL) s1
       in case quote e of
            Inl err \<Rightarrow> (Inl err, s2)
          | Inr outAmount \<Rightarrow>
              if outAmount = None \<or> outAmount = Some []
              then (Inl (Error ''Jupiter swap quote failed.''), s2)
              else
      (case swapBuild e of
            Some err \<Rightarrow> (Inl err, s2)
          | None \<Rightarrow>
      (let s3 = emit SwapTx s2
       in case swapTx e of
            Inl err \<Rightarrow> (Inl err, s3)
          | Inr swapSig \<Rightarrow>
      (case tokenBalance e of
            Inl err \<Rightarrow> (Inl err, s3)
          | Inr tokensToBurn \<Rightarrow>
      (let burnt =
             (if tokensToBurn > 0
              then (case burnTx e of
                      Inl err \<Rightarrow> (Some err, emit (BurnTx tokensToBurn) s3)
                    | Inr burnSig \<Rightarrow> (None, emit (BurnTx tokensToBurn) s3))
              else (None, s3))
       in case burnt of
            (Some err, s4) \<Rightarrow> (Inl err, s4)
          | (None, s4) \<Rightarrow>
      (let s5 = emit (InsertReceipt potSize winnerWallet) s4
       in case insertReceipt e of
            Some err \<Rightarrow> (Inl err, s5)
          | None \<Rightarrow> (Inr (), s5)))))))))"

definition processLottery :: "env \<Rightarrow> string \<Rightarrow> rat \<Rightarrow> world \<Rightarrow> (error + unit) \<times> world" where
  \<comment> \<open>the error is thrown again by \<^verbatim>\<open>catch\<close>; \<^verbatim>\<open>finally\<close> resets the two variables\<close>
  "processLottery e winnerWallet potSize s =
     (case processLotteryBody e winnerWallet potSize s of
        (r, s') \<Rightarrow> (r, s'\<lparr>isLotteryRunning := False, currentPotSize := 0\<rparr>))"

definition workerWinnerIndex :: "TraderVolume list \<Rightarrow> nat \<Rightarrow> nat" where
  \<comment> \<open>\<^verbatim>\<open>randomValue.mod(new BN(traders.length)).toNumber()\<close> in the scheduler\<close>
  "workerWinnerIndex traders randomValue = nat (bn_mod (int randomValue) (int (length traders)))"

definition runRound :: "env \<Rightarrow> TraderVolume list \<Rightarrow> world \<Rightarrow> (error + unit) \<times> world" where
  \<comment> \<open>\<^verbatim>\<open>requestVRF().then(...).catch(...)\<close>: the handler logs and throws a new error\<close>
  "runRound e traders s =
     (case requestVRF (vrf e) s of
        (Inl err, s1) \<Rightarrow> (Inl (Error (''Failed to process lottery: '' @ message err)), s1)
      | (Inr (sig, randomnessAccount), s1) \<Rightarrow>
     (case consumeRandomness (vrf e) randomnessAccount s1 of
        (Inl err, s2) \<Rightarrow> (Inl (Error (''Failed to process lottery: '' @ message err)), s2)
      | (Inr randomValue, s2) \<Rightarrow>
     (let winnerIndex = workerWinnerIndex traders randomValue;
          chosen = (if winnerIndex < length traders then Some (traders ! winnerIndex) else None);
          s3 = emit (NewPublicKey chosen) s2
      in case newPublicKey e chosen of
           Inl err \<Rightarrow> (Inl (Error (''Failed to process lottery: '' @ message err)), s3)
         | Inr winnerKey \<Rightarrow>
     (case processLottery e winnerKey (currentPotSize s3) s3 of
        (Inl err, s4) \<Rightarrow> (Inl (Error (''Failed to process lottery: '' @ message err)), s4)
      | (Inr u, s4) \<Rightarrow> (Inr (), s4)))))"

definition tick :: "env \<Rightarrow> world \<Rightarrow> world" where
  \<comment> \<open>one run of the \<^verbatim>\<open>setInterval\<close> callback of \<^verbatim>\<open>mainLoop\<close>; its outer \<^verbatim>\<open>catch\<close> only logs\<close>
  "tick e s =
     (if isLotteryRunning s then s
      else
        case claimFeesForToken e (PROJECT_TOKEN_MINT_ADDRESS e) s of
          (feesClaimed, s1) \<Rightarrow>
        (let s2 = emit (StatusUpsert (currentPotSize s1) (isLotteryRunning s1)) s1
         in case updateStatus e of
              Some err \<Rightarrow> s2
            | None \<Rightarrow>
                if feesClaimed then
                  (let s3 = emit FetchTraders (s2\<lparr>isLotteryRunning := True\<rparr>)
                   in case getTradersWallet e of
                        Inl err \<Rightarrow> s3
                      | Inr traders \<Rightarrow>
                          if length traders = 0
                          then s3\<lparr>currentPotSize := 0, isLotteryRunning := False\<rparr>
                          else snd (runRound e traders s3))
                else s2))"

fun pollOrReveal :: "event \<Rightarrow> bool" where
  \<comment> \<open>the calls that only the fulfillment wait and the reveal step make\<close>
  "pollOrReveal (Poll acct attempt) = True"
| "pollOrReveal (RevealTx acct) = True"
| "pollOrReveal ev = False"

section \<open>Concrete worlds\<close>

text \<open>
  The state of a freshly started worker, and outside worlds in which every call to the
  chain, the SDK, the database and the swap service succeeds, given the account data
  the oracle shows. The \<^verbatim>\<open>PublicKey\<close> constructor fails in them, as it does in the library
  when it is given a trader object with the fields \<^verbatim>\<open>walletAddress\<close> and \<^verbatim>\<open>volumeUsd\<close>
  in place of an address string. They are the inputs at which the general statements
  below are evaluated.
\<close>

definition initialWorld :: world where
  "initialWorld = \<lparr>isLotteryRunning = False, currentPotSize = 0, generated = 0, trace = []\<rparr>"

definition roundData :: "byte list \<Rightarrow> randomness_data" where
  "roundData buf = \<lparr>currentRound = Some \<lparr>result = Some buf\<rparr>\<rparr>"

definition exampleVrf :: "bool \<Rightarrow> (account \<Rightarrow> nat \<Rightarrow> error + randomness_data) \<Rightarrow> vrf_env" where
  "exampleVrf initialised chainData =
     \<lparr>sbProgram = initialised, queueAccount = initialised, keypair = (\<lambda>k. k),
      randomnessCreate = (\<lambda>a. None), rentExemption = (\<lambda>a. None),
      createTx = (\<lambda>a. Inr ''create''), accountInfo = (\<lambda>a. Inr True),
      commitIx = (\<lambda>a. None), commitTx = (\<lambda>a. Inr ''commit''),
      loadData = chainData, revealTx = (\<lambda>a. Inr ''reveal'')\<rparr>"

definition examplePosition :: position where
  "examplePosition =
     \<lparr>baseMint = ''MINT'', virtualPoolClaimableAmount = Some 2000000000,
      dammPoolClaimableAmount = None, isCustomFeeVault = False,
      customFeeVaultBalance = 0, customFeeVaultBps = 0\<rparr>"

definition exampleTraders :: "TraderVolume list" where
  "exampleTraders =
     [\<lparr>walletAddress = ''A'', volumeUsd = 100\<rparr>, \<lparr>walletAddress = ''B'', volumeUsd = 300\<rparr>]"

definition exampleEnv :: "vrf_env \<Rightarrow> rat \<Rightarrow> (claim_tx \<Rightarrow> error + string) \<Rightarrow> env" where
  "exampleEnv v threshold sendOutcome =
     \<lparr>vrf = v, PROJECT_TOKEN_MINT_ADDRESS = ''MINT'', LOTTERY_POT_THRESHOLD = threshold,
      getAllClaimablePositions = Inr [examplePosition],
      getClaimTransaction = (\<lambda>i p. Inr (Some [7, 8])),
      txSign = (\<lambda>t. None), latestBlockhash = (\<lambda>t. None),
      sendTransaction = sendOutcome,
      confirmTransaction = (\<lambda>t. Inr None),
      updateStatus = None,
      getTradersWallet = Inr exampleTraders,
      newPublicKey = (\<lambda>t. Inl (Error ''Assertion failed'')),
      payoutTx = Inr ''payout'', mintKey = None, quote = Inr (Some ''1000''),
      swapBuild = None, swapTx = Inr ''swap'', tokenBalance = Inr 1000,
      burnTx = Inr ''burn'', insertReceipt = None\<rparr>"

definition readyVrf :: vrf_env where
  \<comment> \<open>the oracle's result, 250 in its first 8 bytes, is on the account at every read\<close>
  "readyVrf = exampleVrf True (\<lambda>a t. Inr (roundData [0, 0, 0, 0, 0, 0, 0, 250]))"

definition pendingVrf :: vrf_env where
  \<comment> \<open>the oracle has not answered: the result buffer is still all zero\<close>
  "pendingVrf = exampleVrf True (\<lambda>a t. Inr (roundData [0, 0, 0, 0, 0, 0, 0, 0]))"

definition sendOk :: "claim_tx \<Rightarrow> error + string" where
  "sendOk t = Inr ''signature''"

definition sendFails :: "claim_tx \<Rightarrow> error + string" where
  "sendFails t = Inl (Error ''send failed'')"

definition buildFailsEnv :: env where
  \<comment> \<open>two matching positions; building the claim transactions of the second one fails\<close>
  "buildFailsEnv =
     (exampleEnv readyVrf 1000000000 sendOk)
       \<lparr>getAllClaimablePositions := Inr [examplePosition, examplePosition],
        getClaimTransaction :=
          (\<lambda>i p. if i = 0 then Inr (Some [7]) else Inl (Error ''build failed''))\<rparr>"

definition hugeTraders :: "TraderVolume list" where
  \<comment> \<open>two traders whose weights add up to \<open>2 ^ 53\<close>\<close>
  "hugeTraders =
     [\<lparr>walletAddress = ''A'', volumeUsd = 4503599627370496\<rparr>,
      \<lparr>walletAddress = ''B'', volumeUsd = 4503599627370496\<rparr>]"


section \<open>Properties of the winner selection\<close>

lemma foldl_add_sum_list: "foldl (\<lambda>sum weight. sum + weight) (a::int) ws = a + sum_list ws"
  by (induction ws arbitrary: a) simp_all

lemma weightOf_pos: "1 \<le> weightOf t"
  by (simp add: weightOf_def)

lemma sum_list_weights_pos: "traders \<noteq> [] \<Longrightarrow> 1 \<le> sum_list (map weightOf traders)"
proof (induction traders)
  case Nil
  then show ?case by simp
next
  case (Cons t ts)
  have "0 \<le> sum_list (map weightOf ts)"
    by (rule sum_list_nonneg) (auto intro: order_trans [OF _ weightOf_pos])
  with weightOf_pos [of t] show ?case by simp
qed

lemma bn_mod_less: "0 < b \<Longrightarrow> bn_mod a b < b"
proof -
  assume b: "0 < b"
  then have m: "\<bar>a\<bar> mod \<bar>b\<bar> < b" "0 \<le> \<bar>a\<bar> mod \<bar>b\<bar>" by simp_all
  show ?thesis
  proof (cases "0 < a")
    case True
    with m show ?thesis by (simp add: bn_mod_def)
  next
    case False
    then have "sgn a * (\<bar>a\<bar> mod \<bar>b\<bar>) \<le> 0"
      using m(2) by (cases "a = 0") (simp_all add: sgn_if)
    with b show ?thesis by (simp add: bn_mod_def)
  qed
qed

lemma bn_mod_nonneg: "0 \<le> a \<Longrightarrow> 0 < b \<Longrightarrow> bn_mod a b = a mod b"
  by (cases "a = 0") (simp_all add: bn_mod_def)

lemma walk_index_range: "walk ws sel cum i = Some j \<Longrightarrow> i \<le> j \<and> j < i + length ws"
proof (induction ws arbitrary: cum i)
  case Nil
  then show ?case by simp
next
  case (Cons w ws)
  show ?case
  proof (cases "sel < cum + w")
    case True
    with Cons.prems show ?thesis by simp
  next
    case False
    with Cons.prems have "walk ws sel (cum + w) (Suc i) = Some j" by simp
    from Cons.IH [OF this] show ?thesis by simp
  qed
qed

lemma walk_selects:
  "(\<forall>w \<in> set ws. 0 \<le> w) \<Longrightarrow> ws \<noteq> [] \<Longrightarrow> sel < cum + sum_list ws
   \<Longrightarrow> \<exists>j. walk ws sel cum i = Some j"
proof (induction ws arbitrary: cum i)
  case Nil
  then show ?case by simp
next
  case (Cons w ws)
  show ?case
  proof (cases "sel < cum + w")
    case True
    then show ?thesis by simp
  next
    case False
    with Cons.prems(3) have ne: "ws \<noteq> []" by auto
    from Cons.prems(1) have nn: "\<forall>w \<in> set ws. 0 \<le> w" by simp
    from Cons.prems(3) have "sel < (cum + w) + sum_list ws" by simp
    from Cons.IH [OF nn ne this, of "Suc i"] False show ?thesis by simp
  qed
qed

lemma walk_Some_iff:
  "(\<forall>w \<in> set ws. 0 \<le> w) \<Longrightarrow> cum \<le> sel \<Longrightarrow>
   walk ws sel cum i = Some (i + k) \<longleftrightarrow>
     k < length ws \<and> cum + sum_list (take k ws) \<le> sel \<and> sel < cum + sum_list (take (Suc k) ws)"
proof (induction ws arbitrary: cum i k)
  case Nil
  then show ?case by simp
next
  case (Cons w ws)
  from Cons.prems(1) have nn: "\<forall>w \<in> set ws. 0 \<le> w" and w: "0 \<le> w" by simp_all
  show ?case
  proof (cases "sel < cum + w")
    case True
    have "0 \<le> sum_list (take (k - 1) ws)"
      by (rule sum_list_nonneg) (use nn in \<open>auto dest: in_set_takeD\<close>)
    with True Cons.prems(2) show ?thesis
      by (cases k) auto
  next
    case False
    then have le: "cum + w \<le> sel" by simp
    show ?thesis
    proof (cases k)
      case 0
      with False Cons.prems(2) walk_index_range [of ws sel "cum + w" "Suc i" i] show ?thesis
        by auto
    next
      case (Suc k')
      with False Cons.IH [OF nn le, of "Suc i" k'] show ?thesis
        by (simp add: add.assoc)
    qed
  qed
qed

lemma sum_list_take_le:
  "(\<forall>w \<in> set ws. (0::int) \<le> w) \<Longrightarrow> sum_list (take k ws) \<le> sum_list ws"
proof -
  assume nn: "\<forall>w \<in> set ws. (0::int) \<le> w"
  have "sum_list ws = sum_list (take k ws) + sum_list (drop k ws)"
    by (metis append_take_drop_id sum_list_append)
  moreover have "0 \<le> sum_list (drop k ws)"
    by (rule sum_list_nonneg) (use nn in \<open>auto dest: in_set_dropD\<close>)
  ultimately show ?thesis by simp
qed

lemma walk_preimage:
  assumes nn: "\<forall>w \<in> set ws. 0 \<le> w" and k: "k < length ws"
  shows "{s \<in> {0..<sum_list ws}. walk ws s 0 0 = Some k}
         = {sum_list (take k ws)..<sum_list (take (Suc k) ws)}"
proof -
  have lo: "0 \<le> sum_list (take k ws)"
    by (rule sum_list_nonneg) (use nn in \<open>auto dest: in_set_takeD\<close>)
  have hi: "sum_list (take (Suc k) ws) \<le> sum_list ws"
    by (rule sum_list_take_le [OF nn])
  have "walk ws s 0 0 = Some k \<longleftrightarrow>
          sum_list (take k ws) \<le> s \<and> s < sum_list (take (Suc k) ws)" if "0 \<le> s" for s
    using walk_Some_iff [OF nn that, of 0 k] k by simp
  with lo hi show ?thesis by auto
qed

lemma walk_preimage_card:
  assumes nn: "\<forall>w \<in> set ws. 0 \<le> w" and k: "k < length ws"
  shows "card {s \<in> {0..<sum_list ws}. walk ws s 0 0 = Some k} = nat (ws ! k)"
proof -
  have "card {s \<in> {0..<sum_list ws}. walk ws s 0 0 = Some k}
        = card {sum_list (take k ws)..<sum_list (take (Suc k) ws)}"
    by (simp only: walk_preimage [OF nn k])
  also have "\<dots> = nat (ws ! k)"
    by (simp add: take_Suc_conv_app_nth [OF k])
  finally show ?thesis .
qed

lemma weights_nonneg: "\<forall>w \<in> set (map weightOf traders). 0 \<le> w"
  using weightOf_pos by (auto intro: order_trans [of 0 1])

lemma total_pos:
  "traders \<noteq> [] \<Longrightarrow> 0 < foldl (\<lambda>sum weight. sum + weight) 0 (map weightOf traders)"
  using sum_list_weights_pos [of traders] by (simp add: foldl_add_sum_list)

lemma walk_weights_Some:
  assumes "traders \<noteq> []"
  shows "\<exists>i. walk (map weightOf traders)
               (bn_mod randomValue (foldl (\<lambda>sum weight. sum + weight) 0 (map weightOf traders)))
               0 0 = Some i"
proof -
  let ?ws = "map weightOf traders"
  let ?total = "foldl (\<lambda>sum weight. sum + weight) 0 ?ws"
  have "bn_mod randomValue ?total < ?total"
    by (rule bn_mod_less [OF total_pos [OF assms]])
  then have "bn_mod randomValue ?total < 0 + sum_list ?ws"
    by (simp add: foldl_add_sum_list)
  moreover have "?ws \<noteq> []" using assms by simp
  ultimately show ?thesis
    using walk_selects [OF weights_nonneg, of traders] by blast
qed

text \<open>
  Claim C4, as amended. For every non-empty trader list whose total weight is below
  \<open>2 ^ 53\<close> and every random value (of either sign), \<open>selectWinnerFromTraders\<close> returns a
  result whose \<open>winnerIndex\<close> is below the length of the list, the winner being the
  address of the trader at that index. For a non-empty list whose total weight is
  \<open>2 ^ 53\<close> or more it throws \<^verbatim>\<open>Assertion failed\<close>, and for the empty list it throws the
  error with the message \<^verbatim>\<open>No traders provided.\<close>
\<close>

theorem selectWinner_index_in_range:
  "(traders \<noteq> [] \<and> foldl (\<lambda>sum weight. sum + weight) 0 (map weightOf traders) < 2 ^ 53 \<longrightarrow>
      (\<exists>r. selectWinnerFromTraders traders randomValue = Inr r
           \<and> winnerIndex r < length traders
           \<and> winner r = walletAddress (traders ! winnerIndex r)))
   \<and> (traders \<noteq> [] \<and> 2 ^ 53 \<le> foldl (\<lambda>sum weight. sum + weight) 0 (map weightOf traders) \<longrightarrow>
        selectWinnerFromTraders traders randomValue = Inl (Error ''Assertion failed''))
   \<and> selectWinnerFromTraders [] randomValue = Inl (Error ''No traders provided.'')"
proof (intro conjI impI)
  let ?ws = "map weightOf traders"
  let ?total = "foldl (\<lambda>sum weight. sum + weight) 0 ?ws"
  assume "traders \<noteq> [] \<and> ?total < 2 ^ 53"
  then have ne: "traders \<noteq> []" and small: "\<not> 2 ^ 53 \<le> ?total" by simp_all
  from walk_weights_Some [OF ne] obtain i
    where i: "walk ?ws (bn_mod randomValue ?total) 0 0 = Some i" by blast
  from walk_index_range [OF i] have "i < length traders" by simp
  with ne small i show "\<exists>r. selectWinnerFromTraders traders randomValue = Inr r
           \<and> winnerIndex r < length traders
           \<and> winner r = walletAddress (traders ! winnerIndex r)"
    by (simp add: selectWinnerFromTraders_def Let_def)
next
  assume "traders \<noteq> [] \<and> 2 ^ 53 \<le> foldl (\<lambda>sum weight. sum + weight) 0 (map weightOf traders)"
  then show "selectWinnerFromTraders traders randomValue = Inl (Error ''Assertion failed'')"
    by (simp add: selectWinnerFromTraders_def Let_def)
next
  show "selectWinnerFromTraders [] randomValue = Inl (Error ''No traders provided.'')"
    by (simp add: selectWinnerFromTraders_def)
qed

theorem selectWinner_index_in_range_witness:
  "[\<lparr>walletAddress = ''A'', volumeUsd = 100\<rparr>, \<lparr>walletAddress = ''B'', volumeUsd = 300\<rparr>] \<noteq> []
   \<and> foldl (\<lambda>sum weight. sum + weight) 0
        (map weightOf [\<lparr>walletAddress = ''A'', volumeUsd = 100\<rparr>,
                       \<lparr>walletAddress = ''B'', volumeUsd = 300\<rparr>]) < 2 ^ 53
   \<and> selectWinnerFromTraders
        [\<lparr>walletAddress = ''A'', volumeUsd = 100\<rparr>, \<lparr>walletAddress = ''B'', volumeUsd = 300\<rparr>] 250
      = Inr \<lparr>winner = ''B'', winnerIndex = 1, totalWeight = 400, selectionValue = 250\<rparr>
   \<and> (1::nat) < length [\<lparr>walletAddress = ''A'', volumeUsd = 100\<rparr>, \<lparr>walletAddress = ''B'', volumeUsd = 300\<rparr>]"
  using selectWinner_index_in_range
    [of "[\<lparr>walletAddress = ''A'', volumeUsd = 100\<rparr>, \<lparr>walletAddress = ''B'', volumeUsd = 300\<rparr>]" 250]
  by (simp add: selectWinnerFromTraders_def weightOf_def bn_mod_def)

text \<open>
  Claim C4 as stated does not hold: for the single trader with the volume \<open>2 ^ 53\<close> the
  list is not empty, and the function returns no index: \<^verbatim>\<open>new BN(totalWeight)\<close> throws.
\<close>

theorem selectWinner_assertion_counterexample:
  "[\<lparr>walletAddress = ''A'', volumeUsd = 9007199254740992\<rparr>] \<noteq> []
   \<and> selectWinnerFromTraders [\<lparr>walletAddress = ''A'', volumeUsd = 9007199254740992\<rparr>] 7
       = Inl (Error ''Assertion failed'')"
  by (simp add: selectWinnerFromTraders_def weightOf_def)

text \<open>
  Claim C6, as amended. For every non-empty trader list whose total weight is below
  \<open>2 ^ 53\<close> and every random value the loop of \<open>selectWinnerFromTraders\<close> returns from
  inside its body: the selection value is below the total weight, the loop can only run
  off the end of the list for a selection value at or above the total weight (the
  cumulative weight reached after the last trader), and the result is the record built
  in the loop, never the one built in the last-trader fallback after it.
\<close>

theorem fallback_unreachable:
  assumes "traders \<noteq> []"
      and "foldl (\<lambda>sum weight. sum + weight) 0 (map weightOf traders) < 2 ^ 53"
  shows "\<exists>i. walk (map weightOf traders)
               (bn_mod randomValue (foldl (\<lambda>sum weight. sum + weight) 0 (map weightOf traders)))
               0 0 = Some i
             \<and> selectWinnerFromTraders traders randomValue =
                 Inr \<lparr>winner = walletAddress (traders ! i), winnerIndex = i,
                      totalWeight = foldl (\<lambda>sum weight. sum + weight) 0 (map weightOf traders),
                      selectionValue =
                        bn_mod randomValue (foldl (\<lambda>sum weight. sum + weight) 0 (map weightOf traders))\<rparr>
             \<and> bn_mod randomValue (foldl (\<lambda>sum weight. sum + weight) 0 (map weightOf traders))
                 < foldl (\<lambda>sum weight. sum + weight) 0 (map weightOf traders)
             \<and> (\<forall>sel. walk (map weightOf traders) sel 0 0 = None
                   \<longrightarrow> foldl (\<lambda>sum weight. sum + weight) 0 (map weightOf traders) \<le> sel)"
proof -
  let ?ws = "map weightOf traders"
  let ?total = "foldl (\<lambda>sum weight. sum + weight) 0 ?ws"
  from assms(2) have small: "\<not> 2 ^ 53 \<le> ?total" by simp
  from walk_weights_Some [OF assms(1)] obtain i
    where i: "walk ?ws (bn_mod randomValue ?total) 0 0 = Some i" by blast
  have lt: "bn_mod randomValue ?total < ?total"
    by (rule bn_mod_less [OF total_pos [OF assms(1)]])
  have ex: "?total \<le> sel" if "walk ?ws sel 0 0 = None" for sel
  proof (rule ccontr)
    assume "\<not> ?total \<le> sel"
    then have "sel < 0 + sum_list ?ws" by (simp add: foldl_add_sum_list)
    moreover have "?ws \<noteq> []" using assms(1) by simp
    ultimately have "\<exists>j. walk ?ws sel 0 0 = Some j"
      using walk_selects [OF weights_nonneg, of traders] by blast
    with that show False by simp
  qed
  from assms(1) small i have "selectWinnerFromTraders traders randomValue =
      Inr \<lparr>winner = walletAddress (traders ! i), winnerIndex = i,
           totalWeight = ?total, selectionValue = bn_mod randomValue ?total\<rparr>"
    by (simp add: selectWinnerFromTraders_def Let_def)
  with i lt ex show ?thesis by blast
qed

theorem fallback_unreachable_witness:
  "exampleTraders \<noteq> []
   \<and> foldl (\<lambda>sum weight. sum + weight) 0 (map weightOf exampleTraders) < 2 ^ 53
   \<and> walk (map weightOf exampleTraders)
        (bn_mod 50 (foldl (\<lambda>sum weight. sum + weight) 0 (map weightOf exampleTraders))) 0 0
       = Some 0
   \<and> length exampleTraders - 1 = 1
   \<and> selectWinnerFromTraders exampleTraders 50
       = Inr \<lparr>winner = ''A'', winnerIndex = 0, totalWeight = 400, selectionValue = 50\<rparr>"
  using fallback_unreachable [of exampleTraders 50]
  by (simp add: exampleTraders_def selectWinnerFromTraders_def weightOf_def bn_mod_def)

text \<open>
  Claim C6 as stated does not hold: for two traders whose weights add up to \<open>2 ^ 53\<close>
  the function does not return the record built in the loop, which would select the
  first trader for the random value 5; it throws before the loop is entered.
\<close>

theorem fallback_assertion_counterexample:
  "[\<lparr>walletAddress = ''A'', volumeUsd = 9007199254740991\<rparr>,
    \<lparr>walletAddress = ''B'', volumeUsd = 1\<rparr>] \<noteq> []
   \<and> walk (map weightOf [\<lparr>walletAddress = ''A'', volumeUsd = 9007199254740991\<rparr>,
                          \<lparr>walletAddress = ''B'', volumeUsd = 1\<rparr>]) 5 0 0 = Some 0
   \<and> selectWinnerFromTraders
        [\<lparr>walletAddress = ''A'', volumeUsd = 9007199254740991\<rparr>,
         \<lparr>walletAddress = ''B'', volumeUsd = 1\<rparr>] 5
       = Inl (Error ''Assertion failed'')"
  by (simp add: selectWinnerFromTraders_def weightOf_def)

text \<open>
  Claim C5, as amended. For every non-empty trader list whose total weight is below
  \<open>2 ^ 53\<close> and every index \<open>i\<close> into it, exactly \<open>max 1 \<lfloor>volumeUsd\<^sub>i\<rfloor>\<close> of the values in
  \<open>{0..<totalWeight}\<close> make \<open>selectWinnerFromTraders\<close> return index \<open>i\<close>, both as random
  values given to the function and as selection values given to its cumulative-weight
  loop.
\<close>

theorem selection_mass:
  assumes ne: "traders \<noteq> []" and i: "i < length traders"
      and small: "foldl (\<lambda>sum weight. sum + weight) 0 (map weightOf traders) < 2 ^ 53"
  shows "card {r \<in> {0..<foldl (\<lambda>sum weight. sum + weight) 0 (map weightOf traders)}.
                 \<exists>res. selectWinnerFromTraders traders r = Inr res \<and> winnerIndex res = i}
         = nat (weightOf (traders ! i))
       \<and> card {s \<in> {0..<foldl (\<lambda>sum weight. sum + weight) 0 (map weightOf traders)}.
                 walk (map weightOf traders) s 0 0 = Some i}
         = nat (weightOf (traders ! i))"
proof -
  let ?ws = "map weightOf traders"
  let ?total = "foldl (\<lambda>sum weight. sum + weight) 0 ?ws"
  have total: "?total = sum_list ?ws" by (simp add: foldl_add_sum_list)
  have pos: "0 < ?total" by (rule total_pos [OF ne])
  from small have ok: "\<not> 2 ^ 53 \<le> ?total" by simp
  have sel: "(\<exists>res. selectWinnerFromTraders traders r = Inr res \<and> winnerIndex res = i)
             \<longleftrightarrow> walk ?ws r 0 0 = Some i" if r: "r \<in> {0..<?total}" for r
  proof -
    from r pos have m: "bn_mod r ?total = r" by (simp add: bn_mod_nonneg)
    from walk_weights_Some [OF ne, of r] m obtain j where j: "walk ?ws r 0 0 = Some j"
      by auto
    with ne ok m show ?thesis
      by (auto simp: selectWinnerFromTraders_def Let_def)
  qed
  then have "{r \<in> {0..<?total}.
                 \<exists>res. selectWinnerFromTraders traders r = Inr res \<and> winnerIndex res = i}
             = {s \<in> {0..<?total}. walk ?ws s 0 0 = Some i}"
    by blast
  moreover have "card {s \<in> {0..<?total}. walk ?ws s 0 0 = Some i} = nat (weightOf (traders ! i))"
    using walk_preimage_card [OF weights_nonneg, of i traders] i by (simp only: total) simp
  ultimately show ?thesis by simp
qed

theorem selection_mass_witness:
  "[\<lparr>walletAddress = ''A'', volumeUsd = 100\<rparr>, \<lparr>walletAddress = ''B'', volumeUsd = 300\<rparr>] \<noteq> []
   \<and> (1::nat) < length [\<lparr>walletAddress = ''A'', volumeUsd = 100\<rparr>, \<lparr>walletAddress = ''B'', volumeUsd = 300\<rparr>]
   \<and> foldl (\<lambda>sum weight. sum + weight) 0
        (map weightOf [\<lparr>walletAddress = ''A'', volumeUsd = 100\<rparr>,
                       \<lparr>walletAddress = ''B'', volumeUsd = 300\<rparr>]) < 2 ^ 53
   \<and> card {r \<in> {0..<400}.
            \<exists>res. selectWinnerFromTraders
                    [\<lparr>walletAddress = ''A'', volumeUsd = 100\<rparr>, \<lparr>walletAddress = ''B'', volumeUsd = 300\<rparr>] r
                   = Inr res \<and> winnerIndex res = 1} = 300"
  using selection_mass
    [of "[\<lparr>walletAddress = ''A'', volumeUsd = 100\<rparr>, \<lparr>walletAddress = ''B'', volumeUsd = 300\<rparr>]" 1]
  by (simp add: weightOf_def)

text \<open>
  Claim C5 as stated does not hold: for two traders of weight \<open>2 ^ 52\<close> each, no value
  in \<open>{0..<totalWeight}\<close> makes \<open>selectWinnerFromTraders\<close> return the index 0, since the
  function throws for every random value, where the claim asks for \<open>2 ^ 52\<close> of them.
\<close>

theorem selection_mass_assertion_counterexample:
  "card {r \<in> {0..<foldl (\<lambda>sum weight. sum + weight) 0 (map weightOf hugeTraders)}.
          \<exists>res. selectWinnerFromTraders hugeTraders r = Inr res \<and> winnerIndex res = 0} = 0
   \<and> nat (weightOf (hugeTraders ! 0)) = 4503599627370496
   \<and> hugeTraders \<noteq> [] \<and> 0 < length hugeTraders"
proof -
  have "selectWinnerFromTraders hugeTraders r = Inl (Error ''Assertion failed'')" for r
    by (simp add: hugeTraders_def selectWinnerFromTraders_def weightOf_def)
  then have "{r \<in> {0..<foldl (\<lambda>sum weight. sum + weight) 0 (map weightOf hugeTraders)}.
          \<exists>res. selectWinnerFromTraders hugeTraders r = Inr res \<and> winnerIndex res = 0} = {}"
    by simp
  then have "card {r \<in> {0..<foldl (\<lambda>sum weight. sum + weight) 0 (map weightOf hugeTraders)}.
          \<exists>res. selectWinnerFromTraders hugeTraders r = Inr res \<and> winnerIndex res = 0} = 0"
    by (simp only: card.empty)
  moreover have "nat (weightOf (hugeTraders ! 0)) = 4503599627370496"
    by (simp add: hugeTraders_def weightOf_def)
  moreover have "hugeTraders \<noteq> [] \<and> 0 < length hugeTraders"
    by (simp add: hugeTraders_def)
  ultimately show ?thesis by blast
qed

section \<open>Properties of the randomness protocol client\<close>

lemma bn_of_bytes_snoc: "bn_of_bytes (bs @ [b]) = bn_of_bytes bs * 256 + unat b"
  by (simp add: bn_of_bytes_def)

lemma bn_of_bytes_bound: "bn_of_bytes bs < 256 ^ length bs"
proof (induction bs rule: rev_induct)
  case Nil
  then show ?case by (simp add: bn_of_bytes_def)
next
  case (snoc b bs)
  have "unat b < 256" using unsigned_less [of b] by simp
  with snoc show ?case by (simp add: bn_of_bytes_snoc)
qed

lemma bn_of_bytes_take8: "bn_of_bytes (take 8 buf) < 2 ^ 64"
proof -
  have "bn_of_bytes (take 8 buf) < 256 ^ length (take 8 buf)" by (rule bn_of_bytes_bound)
  also have "\<dots> \<le> (256::nat) ^ 8" by (rule power_increasing) simp_all
  also have "\<dots> = 2 ^ 64" by simp
  finally show ?thesis .
qed

text \<open>
  Claim C9, as amended. \<open>consumeRandomness\<close> fails exactly when the client has not been
  initialised, or loading the account data fails, or the result buffer of the current
  round is missing or consists of zero bytes only. When the client is initialised and
  the loaded buffer has a non-zero byte, it returns the first 8 bytes of the buffer read
  as a big-endian unsigned integer, a value below \<open>2 ^ 64\<close>.
\<close>

theorem consumeRandomness_result:
  "(isl (fst (consumeRandomness env acct s)) \<longleftrightarrow>
      \<not> sbProgram env \<or>
      (case loadData env acct (now s) of
         Inl err \<Rightarrow> True
       | Inr d \<Rightarrow>
           currentRound d = None
           \<or> (\<exists>r. currentRound d = Some r
                  \<and> (result r = None \<or> (\<exists>buf. result r = Some buf \<and> all_zero buf)))))
   \<and> (\<forall>d r buf. sbProgram env \<and> loadData env acct (now s) = Inr d
         \<and> currentRound d = Some r \<and> result r = Some buf \<and> \<not> all_zero buf
         \<longrightarrow> fst (consumeRandomness env acct s) = Inr (bn_of_bytes (take 8 buf))
             \<and> bn_of_bytes (take 8 buf) < 2 ^ 64)"
  using bn_of_bytes_take8
  by (auto simp: consumeRandomness_def Let_def split: sum.splits option.splits)

theorem consumeRandomness_result_witness:
  "sbProgram (exampleVrf True (\<lambda>a t. Inr (roundData [0, 0, 0, 0, 0, 0, 0, 250, 9])))
   \<and> \<not> all_zero [0, 0, 0, 0, 0, 0, 0, 250, 9]
   \<and> fst (consumeRandomness (exampleVrf True (\<lambda>a t. Inr (roundData [0, 0, 0, 0, 0, 0, 0, 250, 9])))
            0 initialWorld) = Inr 250"
  using consumeRandomness_result
    [of "exampleVrf True (\<lambda>a t. Inr (roundData [0, 0, 0, 0, 0, 0, 0, 250, 9]))" 0 initialWorld]
  by (simp add: exampleVrf_def roundData_def all_zero_def bn_of_bytes_def)

text \<open>
  Claim C9 as stated does not hold: with a result buffer that is present and not all
  zero, \<open>consumeRandomness\<close> still fails when \<^verbatim>\<open>sbProgram\<close> has not been set, by the
  guard at its first line.
\<close>

theorem consumeRandomness_uninitialised_counterexample:
  "\<not> all_zero [0, 0, 0, 0, 0, 0, 0, 250]
   \<and> loadData (exampleVrf False (\<lambda>a t. Inr (roundData [0, 0, 0, 0, 0, 0, 0, 250]))) 0 (now initialWorld)
       = Inr \<lparr>currentRound = Some \<lparr>result = Some [0, 0, 0, 0, 0, 0, 0, 250]\<rparr>\<rparr>
   \<and> fst (consumeRandomness (exampleVrf False (\<lambda>a t. Inr (roundData [0, 0, 0, 0, 0, 0, 0, 250])))
            0 initialWorld) = Inl (Error ''VRF not initialized.'')"
  by (simp add: consumeRandomness_def exampleVrf_def roundData_def all_zero_def)

section \<open>Properties of the fee claim monitor\<close>

lemma sendClaim_frame:
  "currentPotSize (sendClaim e i j t s) = currentPotSize s
   \<and> isLotteryRunning (sendClaim e i j t s) = isLotteryRunning s
   \<and> generated (sendClaim e i j t s) = generated s"
  by (simp add: sendClaim_def emit_def Let_def split: option.splits sum.splits)

lemma sendClaim_trace:
  "\<exists>rest. trace (sendClaim e i j t s) = trace s @ ClaimAttempt i j # rest"
  by (simp add: sendClaim_def emit_def Let_def split: option.splits sum.splits)

lemma txLoop_frame:
  "currentPotSize (txLoop e i j ts s) = currentPotSize s
   \<and> isLotteryRunning (txLoop e i j ts s) = isLotteryRunning s
   \<and> generated (txLoop e i j ts s) = generated s"
  by (induction ts arbitrary: j s) (simp_all add: sendClaim_frame)

lemma txLoop_trace: "\<exists>rest. trace (txLoop e i j ts s) = trace s @ rest"
proof (induction ts arbitrary: j s)
  case Nil
  then show ?case by simp
next
  case (Cons t ts)
  from sendClaim_trace [of e i j t s] obtain r1
    where r1: "trace (sendClaim e i j t s) = trace s @ ClaimAttempt i j # r1" by blast
  from Cons.IH [of "Suc j" "sendClaim e i j t s"] obtain r2
    where "trace (txLoop e i (Suc j) ts (sendClaim e i j t s)) = trace (sendClaim e i j t s) @ r2"
    by blast
  with r1 show ?case by simp
qed

lemma positionLoop_frame:
  "currentPotSize (snd (positionLoop e i ps s)) = currentPotSize s
   \<and> isLotteryRunning (snd (positionLoop e i ps s)) = isLotteryRunning s
   \<and> generated (snd (positionLoop e i ps s)) = generated s"
proof (induction ps arbitrary: i s)
  case Nil
  then show ?case by simp
next
  case (Cons p ps)
  show ?case
    by (simp add: Let_def Cons.IH txLoop_frame emit_def split: sum.splits option.splits)
qed

lemma positionLoop_trace: "\<exists>rest. trace (snd (positionLoop e i ps s)) = trace s @ rest"
proof (induction ps arbitrary: i s)
  case Nil
  then show ?case by simp
next
  case (Cons p ps)
  let ?s1 = "emit (BuildClaim i) s"
  have s1: "trace ?s1 = trace s @ [BuildClaim i]" by (simp add: emit_def)
  show ?case
  proof (cases "getClaimTransaction e i p")
    case (Inl err)
    with s1 show ?thesis by (simp add: Let_def)
  next
    case (Inr r)
    show ?thesis
    proof (cases "r = None \<or> r = Some []")
      case True
      from Cons.IH [of "Suc i" ?s1] s1 Inr True show ?thesis
        by (auto simp: Let_def)
    next
      case False
      then obtain ts where ts: "r = Some ts" "ts \<noteq> []" by (cases r) auto
      from txLoop_trace [of e i 0 ts ?s1] obtain r1
        where r1: "trace (txLoop e i 0 ts ?s1) = trace ?s1 @ r1" by blast
      from Cons.IH [of "Suc i" "txLoop e i 0 ts ?s1"] obtain r2
        where "trace (snd (positionLoop e (Suc i) ps (txLoop e i 0 ts ?s1)))
                 = trace (txLoop e i 0 ts ?s1) @ r2" by blast
      with r1 s1 Inr ts show ?thesis by (simp add: Let_def)
    qed
  qed
qed

lemma positionLoop_first:
  "\<exists>rest. trace (snd (positionLoop e i (p # ps) s)) = trace s @ BuildClaim i # rest"
proof -
  let ?s1 = "emit (BuildClaim i) s"
  have s1: "trace ?s1 = trace s @ [BuildClaim i]" by (simp add: emit_def)
  show ?thesis
  proof (cases "getClaimTransaction e i p")
    case (Inl err)
    with s1 show ?thesis by (simp add: Let_def)
  next
    case (Inr r)
    show ?thesis
    proof (cases "r = None \<or> r = Some []")
      case True
      from positionLoop_trace [of e "Suc i" ps ?s1] s1 Inr True show ?thesis
        by (auto simp: Let_def)
    next
      case False
      then obtain ts where ts: "r = Some ts" "ts \<noteq> []" by (cases r) auto
      from txLoop_trace [of e i 0 ts ?s1] obtain r1
        where r1: "trace (txLoop e i 0 ts ?s1) = trace ?s1 @ r1" by blast
      from positionLoop_trace [of e "Suc i" ps "txLoop e i 0 ts ?s1"] obtain r2
        where "trace (snd (positionLoop e (Suc i) ps (txLoop e i 0 ts ?s1)))
                 = trace (txLoop e i 0 ts ?s1) @ r2" by blast
      with r1 s1 Inr ts show ?thesis by (simp add: Let_def)
    qed
  qed
qed

lemma txLoop_new_attempts:
  "\<exists>new. trace (txLoop e i j ts s) = trace s @ new
         \<and> (\<forall>k<length ts. ClaimAttempt i (j + k) \<in> set new)"
proof (induction ts arbitrary: j s)
  case Nil
  then show ?case by simp
next
  case (Cons t ts)
  from sendClaim_trace [of e i j t s] obtain r1
    where r1: "trace (sendClaim e i j t s) = trace s @ ClaimAttempt i j # r1" by blast
  from Cons.IH [of "Suc j" "sendClaim e i j t s"] obtain r2
    where r2: "trace (txLoop e i (Suc j) ts (sendClaim e i j t s)) = trace (sendClaim e i j t s) @ r2"
      and a2: "\<forall>k<length ts. ClaimAttempt i (Suc j + k) \<in> set r2"
    by blast
  have "ClaimAttempt i (j + k) \<in> set (ClaimAttempt i j # r1 @ r2)" if "k < length (t # ts)" for k
  proof (cases k)
    case 0
    then show ?thesis by simp
  next
    case (Suc k')
    with that a2 show ?thesis by simp
  qed
  with r1 r2 show ?case by simp
qed

lemma positionLoop_all_attempted:
  assumes ok: "\<forall>i p. \<not> isl (getClaimTransaction e i p)"
  shows "\<exists>new. trace (snd (positionLoop e i ps s)) = trace s @ new
           \<and> fst (positionLoop e i ps s) = None
           \<and> (\<forall>k<length ps. \<forall>ts j. getClaimTransaction e (i + k) (ps ! k) = Inr (Some ts)
                  \<longrightarrow> j < length ts \<longrightarrow> ClaimAttempt (i + k) j \<in> set new)"
proof (induction ps arbitrary: i s)
  case Nil
  then show ?case by simp
next
  case (Cons p ps)
  let ?s1 = "emit (BuildClaim i) s"
  let ?g = "getClaimTransaction e i p"
  let ?s2 = "case ?g of Inr (Some ts) \<Rightarrow> txLoop e i 0 ts ?s1 | _ \<Rightarrow> ?s1"
  from ok have "\<not> isl ?g" by blast
  then obtain r where r: "?g = Inr r" by (cases ?g) auto
  have step: "positionLoop e i (p # ps) s = positionLoop e (Suc i) ps ?s2"
    using r by (cases r) (simp_all add: Let_def)
  have "\<exists>n1. trace ?s2 = trace s @ BuildClaim i # n1
          \<and> (\<forall>ts j. ?g = Inr (Some ts) \<longrightarrow> j < length ts \<longrightarrow> ClaimAttempt i j \<in> set n1)"
  proof (cases r)
    case None
    with r show ?thesis by (simp add: emit_def)
  next
    case (Some ts)
    from txLoop_new_attempts [of e i 0 ts ?s1] obtain n
      where "trace (txLoop e i 0 ts ?s1) = trace ?s1 @ n"
        and "\<forall>k<length ts. ClaimAttempt i (0 + k) \<in> set n" by blast
    with r Some show ?thesis by (simp add: emit_def)
  qed
  then obtain n1 where n1: "trace ?s2 = trace s @ BuildClaim i # n1"
    and a1: "\<forall>ts j. ?g = Inr (Some ts) \<longrightarrow> j < length ts \<longrightarrow> ClaimAttempt i j \<in> set n1"
    by blast
  from Cons.IH [of "Suc i" ?s2] obtain n2
    where n2: "trace (snd (positionLoop e (Suc i) ps ?s2)) = trace ?s2 @ n2"
      and f2: "fst (positionLoop e (Suc i) ps ?s2) = None"
      and a2: "\<forall>k<length ps. \<forall>ts j. getClaimTransaction e (Suc i + k) (ps ! k) = Inr (Some ts)
                  \<longrightarrow> j < length ts \<longrightarrow> ClaimAttempt (Suc i + k) j \<in> set n2"
    by blast
  have "ClaimAttempt (i + k) j \<in> set (BuildClaim i # n1 @ n2)"
    if "k < length (p # ps)" "getClaimTransaction e (i + k) ((p # ps) ! k) = Inr (Some ts)"
       "j < length ts" for k ts j
  proof (cases k)
    case 0
    with that a1 show ?thesis by simp
  next
    case (Suc k')
    with that a2 show ?thesis by simp
  qed
  with n1 n2 f2 step show ?case by simp
qed

lemma claimFeesBody_reached:
  assumes q: "getAllClaimablePositions e = Inr allPositions"
      and t: "filter (\<lambda>position. baseMint position = tokenMint) allPositions = targets"
      and ne: "targets \<noteq> []"
  shows "claimFeesBody e tokenMint s =
           (let s1 = (emit QueryPositions s)\<lparr>currentPotSize := claimableSum targets\<rparr>
            in if claimableSum targets < LOTTERY_POT_THRESHOLD e then (Inr False, s1)
               else (case positionLoop e 0 targets s1 of
                       (Some err, s2) \<Rightarrow> (Inl err, s2)
                     | (None, s2) \<Rightarrow> (Inr True, s2)))"
proof -
  from t ne have "allPositions \<noteq> []" by auto
  with q t ne show ?thesis by (simp add: claimFeesBody_def Let_def)
qed

text \<open>
  Claim C7. Once the claimable sum of the matching positions has been computed,
  \<open>claimFeesForToken\<close> enters claim execution exactly when the sum is at or above the
  threshold: then the first call after the query asks for the claim transactions of the
  first matching position. Below the threshold it returns \<open>False\<close>, the query is the
  only call it has made, and the pot size holds the computed sum.
\<close>

theorem claim_threshold:
  assumes q: "getAllClaimablePositions e = Inr allPositions"
      and t: "filter (\<lambda>position. baseMint position = tokenMint) allPositions = targets"
      and ne: "targets \<noteq> []"
  shows "(claimableSum targets < LOTTERY_POT_THRESHOLD e \<longrightarrow>
            fst (claimFeesForToken e tokenMint s) = False
            \<and> trace (snd (claimFeesForToken e tokenMint s)) = trace s @ [QueryPositions]
            \<and> currentPotSize (snd (claimFeesForToken e tokenMint s)) = claimableSum targets)
       \<and> (LOTTERY_POT_THRESHOLD e \<le> claimableSum targets \<longrightarrow>
            (\<exists>rest. trace (snd (claimFeesForToken e tokenMint s))
                      = trace s @ QueryPositions # BuildClaim 0 # rest)
            \<and> currentPotSize (snd (claimFeesForToken e tokenMint s)) = claimableSum targets)"
proof (intro conjI impI)
  assume lt: "claimableSum targets < LOTTERY_POT_THRESHOLD e"
  then have b: "claimFeesBody e tokenMint s
                = (Inr False, (emit QueryPositions s)\<lparr>currentPotSize := claimableSum targets\<rparr>)"
    by (simp add: claimFeesBody_reached [OF q t ne])
  show "fst (claimFeesForToken e tokenMint s) = False"
    by (simp add: claimFeesForToken_def b)
  show "trace (snd (claimFeesForToken e tokenMint s)) = trace s @ [QueryPositions]"
    by (simp add: claimFeesForToken_def b emit_def)
  show "currentPotSize (snd (claimFeesForToken e tokenMint s)) = claimableSum targets"
    by (simp add: claimFeesForToken_def b)
next
  assume ge: "LOTTERY_POT_THRESHOLD e \<le> claimableSum targets"
  let ?s1 = "(emit QueryPositions s)\<lparr>currentPotSize := claimableSum targets\<rparr>"
  from ge have b: "claimFeesBody e tokenMint s =
      (case positionLoop e 0 targets ?s1 of
         (Some err, s2) \<Rightarrow> (Inl err, s2) | (None, s2) \<Rightarrow> (Inr True, s2))"
    by (simp add: claimFeesBody_reached [OF q t ne] Let_def)
  have s: "snd (claimFeesForToken e tokenMint s) = snd (positionLoop e 0 targets ?s1)"
    by (simp add: claimFeesForToken_def b split: prod.splits option.splits)
  from ne obtain p ps where ps: "targets = p # ps" by (cases targets) auto
  from positionLoop_first [of e 0 p ps ?s1]
  show "\<exists>rest. trace (snd (claimFeesForToken e tokenMint s))
                 = trace s @ QueryPositions # BuildClaim 0 # rest"
    by (simp add: s ps emit_def)
  show "currentPotSize (snd (claimFeesForToken e tokenMint s)) = claimableSum targets"
    by (simp add: s positionLoop_frame)
qed

theorem claim_threshold_witness:
  "getAllClaimablePositions (exampleEnv readyVrf 2000000000 sendOk) = Inr [examplePosition]
   \<and> filter (\<lambda>position. baseMint position = ''MINT'') [examplePosition] = [examplePosition]
   \<and> LOTTERY_POT_THRESHOLD (exampleEnv readyVrf 2000000000 sendOk) = claimableSum [examplePosition]
   \<and> currentPotSize (snd (claimFeesForToken (exampleEnv readyVrf 2000000000 sendOk) ''MINT'' initialWorld))
       = 2000000000
   \<and> (\<exists>rest. trace (snd (claimFeesForToken (exampleEnv readyVrf 2000000000 sendOk) ''MINT'' initialWorld))
               = QueryPositions # BuildClaim 0 # rest)
   \<and> claimableSum [examplePosition] < LOTTERY_POT_THRESHOLD (exampleEnv readyVrf 2000000001 sendOk)
   \<and> fst (claimFeesForToken (exampleEnv readyVrf 2000000001 sendOk) ''MINT'' initialWorld) = False
   \<and> trace (snd (claimFeesForToken (exampleEnv readyVrf 2000000001 sendOk) ''MINT'' initialWorld))
       = [QueryPositions]
   \<and> currentPotSize (snd (claimFeesForToken (exampleEnv readyVrf 2000000001 sendOk) ''MINT'' initialWorld))
       = 2000000000"
  using claim_threshold [of "exampleEnv readyVrf 2000000000 sendOk" "[examplePosition]" "''MINT''"
                            "[examplePosition]" initialWorld]
        claim_threshold [of "exampleEnv readyVrf 2000000001 sendOk" "[examplePosition]" "''MINT''"
                            "[examplePosition]" initialWorld]
  by (simp add: exampleEnv_def examplePosition_def claimableSum_def addPosition_def
        initialWorld_def)

text \<open>
  Claim C8, as amended. In claim execution, whatever signing, fetching the blockhash,
  sending and confirming answer for each claim transaction, no such error stops the
  loops: provided that the claim transactions of every matching position can be built,
  every transaction of every matching position is attempted, \<open>claimFeesForToken\<close> returns
  \<open>True\<close>, and the pot size is the sum computed before the first claim.
\<close>

theorem partial_claims_proceed:
  assumes q: "getAllClaimablePositions e = Inr allPositions"
      and t: "filter (\<lambda>position. baseMint position = tokenMint) allPositions = targets"
      and ne: "targets \<noteq> []"
      and ge: "LOTTERY_POT_THRESHOLD e \<le> claimableSum targets"
      and ok: "\<forall>i p. \<not> isl (getClaimTransaction e i p)"
  shows "fst (claimFeesForToken e tokenMint s) = True
       \<and> currentPotSize (snd (claimFeesForToken e tokenMint s)) = claimableSum targets
       \<and> (\<exists>new. trace (snd (claimFeesForToken e tokenMint s)) = trace s @ new
             \<and> (\<forall>k<length targets. \<forall>ts j.
                   getClaimTransaction e k (targets ! k) = Inr (Some ts) \<longrightarrow> j < length ts
                   \<longrightarrow> ClaimAttempt k j \<in> set new))"
proof -
  let ?s1 = "(emit QueryPositions s)\<lparr>currentPotSize := claimableSum targets\<rparr>"
  from positionLoop_all_attempted [OF ok, of 0 targets ?s1] obtain new
    where new: "trace (snd (positionLoop e 0 targets ?s1)) = trace ?s1 @ new"
      and none: "fst (positionLoop e 0 targets ?s1) = None"
      and att: "\<forall>k<length targets. \<forall>ts j.
                   getClaimTransaction e (0 + k) (targets ! k) = Inr (Some ts) \<longrightarrow> j < length ts
                   \<longrightarrow> ClaimAttempt (0 + k) j \<in> set new"
    by blast
  from ge have b: "claimFeesBody e tokenMint s =
      (case positionLoop e 0 targets ?s1 of
         (Some err, s2) \<Rightarrow> (Inl err, s2) | (None, s2) \<Rightarrow> (Inr True, s2))"
    by (simp add: claimFeesBody_reached [OF q t ne] Let_def)
  from none have r: "claimFeesForToken e tokenMint s = (True, snd (positionLoop e 0 targets ?s1))"
    by (cases "positionLoop e 0 targets ?s1") (simp add: claimFeesForToken_def b)
  have "trace ?s1 = trace s @ [QueryPositions]" by (simp add: emit_def)
  then have "trace (snd (claimFeesForToken e tokenMint s)) = trace s @ QueryPositions # new"
    by (simp add: r new)
  moreover from att have "\<forall>k<length targets. \<forall>ts j.
                   getClaimTransaction e k (targets ! k) = Inr (Some ts) \<longrightarrow> j < length ts
                   \<longrightarrow> ClaimAttempt k j \<in> set (QueryPositions # new)"
    by simp
  ultimately have "\<exists>new. trace (snd (claimFeesForToken e tokenMint s)) = trace s @ new
             \<and> (\<forall>k<length targets. \<forall>ts j.
                   getClaimTransaction e k (targets ! k) = Inr (Some ts) \<longrightarrow> j < length ts
                   \<longrightarrow> ClaimAttempt k j \<in> set new)"
    by blast
  then show ?thesis by (simp add: r positionLoop_frame)
qed

theorem partial_claims_proceed_witness:
  "getAllClaimablePositions (exampleEnv readyVrf 1000000000 sendFails) = Inr [examplePosition]
   \<and> filter (\<lambda>position. baseMint position = ''MINT'') [examplePosition] = [examplePosition]
   \<and> LOTTERY_POT_THRESHOLD (exampleEnv readyVrf 1000000000 sendFails)
       \<le> claimableSum [examplePosition]
   \<and> (\<forall>i p. \<not> isl (getClaimTransaction (exampleEnv readyVrf 1000000000 sendFails) i p))
   \<and> sendTransaction (exampleEnv readyVrf 1000000000 sendFails) 7 = Inl (Error ''send failed'')
   \<and> fst (claimFeesForToken (exampleEnv readyVrf 1000000000 sendFails) ''MINT'' initialWorld)
   \<and> currentPotSize
        (snd (claimFeesForToken (exampleEnv readyVrf 1000000000 sendFails) ''MINT'' initialWorld))
       = 2000000000"
  using partial_claims_proceed
    [of "exampleEnv readyVrf 1000000000 sendFails" "[examplePosition]" "''MINT''"
        "[examplePosition]" initialWorld]
  by (simp add: exampleEnv_def examplePosition_def claimableSum_def addPosition_def sendFails_def)

text \<open>
  Claim C8 as stated does not hold: the request for the claim transactions of a
  position is outside the inner \<^verbatim>\<open>try\<close>. With two matching positions above the
  threshold, the transaction of the first one is sent and confirmed, building the
  transactions of the second one throws, and \<open>claimFeesForToken\<close> returns \<open>False\<close>
  although it had reached the execution phase.
\<close>

theorem partial_claims_build_failure_counterexample:
  "getAllClaimablePositions buildFailsEnv = Inr [examplePosition, examplePosition]
   \<and> LOTTERY_POT_THRESHOLD buildFailsEnv \<le> claimableSum [examplePosition, examplePosition]
   \<and> trace (snd (claimFeesForToken buildFailsEnv ''MINT'' initialWorld))
       = [QueryPositions, BuildClaim 0, ClaimAttempt 0 0, ClaimSend 0 0, ClaimConfirmed 0 0,
          BuildClaim 1]
   \<and> fst (claimFeesForToken buildFailsEnv ''MINT'' initialWorld) = False
   \<and> currentPotSize (snd (claimFeesForToken buildFailsEnv ''MINT'' initialWorld)) = 4000000000"
  by (simp add: buildFailsEnv_def exampleEnv_def examplePosition_def sendOk_def initialWorld_def
        claimFeesForToken_def claimFeesBody_def claimableSum_def addPosition_def
        sendClaim_def emit_def Let_def)

text \<open>
  Claim C10. No exception leaves \<open>claimFeesForToken\<close>: it returns \<open>True\<close> exactly when
  its \<^verbatim>\<open>try\<close> block returns \<open>True\<close>. When an exception leaves the \<^verbatim>\<open>try\<close> block, it
  returns \<open>False\<close> and the pot size is not reset: it is the value from before the call
  when the query for positions failed, and the computed sum, at or above the
  threshold, when building the claim transactions of a position failed.
\<close>

theorem claimFees_catches_all:
  "fst (claimFeesForToken e tokenMint s) = (fst (claimFeesBody e tokenMint s) = Inr True)
   \<and> (\<forall>err. fst (claimFeesBody e tokenMint s) = Inl err \<longrightarrow>
         fst (claimFeesForToken e tokenMint s) = False
         \<and> (case getAllClaimablePositions e of
              Inl queryErr \<Rightarrow>
                currentPotSize (snd (claimFeesForToken e tokenMint s)) = currentPotSize s
            | Inr allPositions \<Rightarrow>
                currentPotSize (snd (claimFeesForToken e tokenMint s))
                  = claimableSum (filter (\<lambda>position. baseMint position = tokenMint) allPositions)
                \<and> LOTTERY_POT_THRESHOLD e
                  \<le> claimableSum (filter (\<lambda>position. baseMint position = tokenMint) allPositions)))"
proof (intro conjI allI impI)
  show "fst (claimFeesForToken e tokenMint s) = (fst (claimFeesBody e tokenMint s) = Inr True)"
    by (auto simp: claimFeesForToken_def split: prod.splits sum.splits)
next
  fix err
  assume raised: "fst (claimFeesBody e tokenMint s) = Inl err"
  then show "fst (claimFeesForToken e tokenMint s) = False"
    by (auto simp: claimFeesForToken_def split: prod.splits sum.splits)
  have snd_eq: "snd (claimFeesForToken e tokenMint s) = snd (claimFeesBody e tokenMint s)"
    by (auto simp: claimFeesForToken_def split: prod.splits sum.splits)
  show "case getAllClaimablePositions e of
          Inl queryErr \<Rightarrow>
            currentPotSize (snd (claimFeesForToken e tokenMint s)) = currentPotSize s
        | Inr allPositions \<Rightarrow>
            currentPotSize (snd (claimFeesForToken e tokenMint s))
              = claimableSum (filter (\<lambda>position. baseMint position = tokenMint) allPositions)
            \<and> LOTTERY_POT_THRESHOLD e
              \<le> claimableSum (filter (\<lambda>position. baseMint position = tokenMint) allPositions)"
  proof (cases "getAllClaimablePositions e")
    case (Inl queryErr)
    then show ?thesis by (simp add: snd_eq claimFeesBody_def emit_def)
  next
    case (Inr allPositions)
    let ?targets = "filter (\<lambda>position. baseMint position = tokenMint) allPositions"
    let ?s1 = "(emit QueryPositions s)\<lparr>currentPotSize := claimableSum ?targets\<rparr>"
    from raised Inr have ne: "?targets \<noteq> []"
      by (auto simp: claimFeesBody_def Let_def split: if_splits)
    note b = claimFeesBody_reached [OF Inr refl ne, of s]
    from raised b have ge: "LOTTERY_POT_THRESHOLD e \<le> claimableSum ?targets"
      by (auto simp: Let_def split: if_splits)
    with b have "snd (claimFeesBody e tokenMint s) = snd (positionLoop e 0 ?targets ?s1)"
      by (simp add: Let_def split: prod.splits option.splits)
    with Inr ge show ?thesis by (simp add: snd_eq positionLoop_frame)
  qed
qed

theorem claimFees_catches_all_witness:
  "fst (claimFeesBody
          ((exampleEnv readyVrf 1000000000 sendOk)\<lparr>getAllClaimablePositions := Inl (Error ''429'')\<rparr>)
          ''MINT'' (initialWorld\<lparr>currentPotSize := 5\<rparr>)) = Inl (Error ''429'')
   \<and> fst (claimFeesForToken
          ((exampleEnv readyVrf 1000000000 sendOk)\<lparr>getAllClaimablePositions := Inl (Error ''429'')\<rparr>)
          ''MINT'' (initialWorld\<lparr>currentPotSize := 5\<rparr>)) = False
   \<and> currentPotSize (snd (claimFeesForToken
          ((exampleEnv readyVrf 1000000000 sendOk)\<lparr>getAllClaimablePositions := Inl (Error ''429'')\<rparr>)
          ''MINT'' (initialWorld\<lparr>currentPotSize := 5\<rparr>))) = 5"
  using claimFees_catches_all
    [of "(exampleEnv readyVrf 1000000000 sendOk)\<lparr>getAllClaimablePositions := Inl (Error ''429'')\<rparr>"
        "''MINT''" "initialWorld\<lparr>currentPotSize := 5\<rparr>"]
  by (simp add: exampleEnv_def claimFeesBody_def emit_def initialWorld_def)

section \<open>The scheduler at concrete worlds\<close>

lemmas world_defs =
  exampleEnv_def exampleVrf_def readyVrf_def pendingVrf_def sendOk_def sendFails_def
  examplePosition_def exampleTraders_def initialWorld_def roundData_def

lemmas worker_defs =
  tick_def claimFeesForToken_def claimFeesBody_def claimableSum_def addPosition_def
  sendClaim_def emit_def now_def runRound_def requestVRF_def consumeRandomness_def
  workerWinnerIndex_def bn_mod_def all_zero_def bn_of_bytes_def
  processLottery_def processLotteryBody_def Let_def

lemma tick_skips_while_running: "isLotteryRunning s \<Longrightarrow> tick e s = s"
  by (simp add: tick_def)

lemma processLottery_resets:
  "isLotteryRunning (snd (processLottery e w pot s)) = False
   \<and> currentPotSize (snd (processLottery e w pot s)) = 0"
  by (simp add: processLottery_def split: prod.splits)

lemma tick_pending:
  "tick (exampleEnv pendingVrf 1000000000 sendOk) initialWorld =
     \<lparr>isLotteryRunning = True, currentPotSize = 2000000000, generated = 1,
      trace =
        [QueryPositions, BuildClaim 0, ClaimAttempt 0 0, ClaimSend 0 0,
         ClaimConfirmed 0 0, ClaimAttempt 0 1, ClaimSend 0 1,
         ClaimConfirmed 0 1, StatusUpsert 2000000000 False, FetchTraders,
         CreateTx 0, CommitTx 0, LoadResult 0]\<rparr>"
  by (simp add: world_defs worker_defs)

lemma tick_ready:
  "tick (exampleEnv readyVrf 1000000000 sendOk) initialWorld =
     \<lparr>isLotteryRunning = True, currentPotSize = 2000000000, generated = 1,
      trace =
        [QueryPositions, BuildClaim 0, ClaimAttempt 0 0, ClaimSend 0 0,
         ClaimConfirmed 0 0, ClaimAttempt 0 1, ClaimSend 0 1,
         ClaimConfirmed 0 1, StatusUpsert 2000000000 False, FetchTraders,
         CreateTx 0, CommitTx 0, LoadResult 0,
         NewPublicKey (Some \<lparr>walletAddress = ''A'', volumeUsd = 100\<rparr>)]\<rparr>"
  by (simp add: world_defs worker_defs)


lemma pollLoop_fulfilled_at_once:
  "loadData env acct (now s) = Inr d \<Longrightarrow> fulfilled d
   \<Longrightarrow> pollLoop env acct delayMs attempt (Suc n) s = (True, emit (Poll acct attempt) s)"
  by (simp add: Let_def)

lemma waitForFulfillment_at_once:
  "sbProgram env \<Longrightarrow> loadData env acct (now s) = Inr d \<Longrightarrow> fulfilled d
   \<Longrightarrow> waitForFulfillment env acct (numeral k) delayMs s = (Inr True, emit (Poll acct 1) s)"
  by (simp only: waitForFulfillment_def numeral_eq_Suc [of k] pollLoop_fulfilled_at_once
        if_False not_True_eq_False simp_thms prod.case)

lemma workflowLoop_succeeds_at_once:
  "vrfAttempt env s = (Inr v, s') \<Longrightarrow> workflowLoop env m a (numeral k) s = (Inr v, s')"
  by (simp add: numeral_eq_Suc [of k])

lemma requestVRF_ready:
  "requestVRF readyVrf initialWorld =
     (Inr (''commit'', 0),
      \<lparr>isLotteryRunning = False, currentPotSize = 0, generated = 1,
       trace = [CreateTx 0, CommitTx 0]\<rparr>)"
  by (simp add: world_defs requestVRF_def emit_def Let_def)

lemma vrfAttempt_ready:
  "vrfAttempt readyVrf initialWorld =
     (Inr 250,
      \<lparr>isLotteryRunning = False, currentPotSize = 0, generated = 1,
       trace = [CreateTx 0, CommitTx 0, Poll 0 1, RevealTx 0, LoadResult 0]\<rparr>)"
proof -
  let ?s1 = "\<lparr>isLotteryRunning = False, currentPotSize = 0, generated = 1,
              trace = [CreateTx 0, CommitTx 0]\<rparr>"
  have init: "sbProgram readyVrf" by (simp add: world_defs)
  have ld: "loadData readyVrf 0 (now ?s1) = Inr (roundData [0, 0, 0, 0, 0, 0, 0, 250])"
    by (simp add: world_defs)
  have ff: "fulfilled (roundData [0, 0, 0, 0, 0, 0, 0, 250])"
    by (simp add: fulfilled_def roundData_def all_zero_def)
  have w: "waitForFulfillment readyVrf 0 30 5000 ?s1 = (Inr True, emit (Poll 0 1) ?s1)"
    by (rule waitForFulfillment_at_once [OF init ld ff])
  have r: "revealRandomness readyVrf 0 (emit (Poll 0 1) ?s1)
           = (Inr ''reveal'', emit (RevealTx 0) (emit (Poll 0 1) ?s1))"
    by (simp add: revealRandomness_def world_defs)
  have c: "consumeRandomness readyVrf 0 (emit (RevealTx 0) (emit (Poll 0 1) ?s1))
           = (Inr 250, emit (LoadResult 0) (emit (RevealTx 0) (emit (Poll 0 1) ?s1)))"
    by (simp add: consumeRandomness_def world_defs all_zero_def bn_of_bytes_def Let_def)
  show ?thesis
    by (simp only: vrfAttempt_def requestVRF_ready w r c prod.case sum.case bool.case)
       (simp add: emit_def)
qed

lemma workflow_ready:
  "executeVRFWorkflow readyVrf 3 initialWorld =
     (Inr 250,
      \<lparr>isLotteryRunning = False, currentPotSize = 0, generated = 1,
       trace = [CreateTx 0, CommitTx 0, Poll 0 1, RevealTx 0, LoadResult 0]\<rparr>)"
  unfolding executeVRFWorkflow_def
  by (rule workflowLoop_succeeds_at_once [OF vrfAttempt_ready])

text \<open>
  Claim C1 fails on the code. In a world where the claim succeeds and traders exist
  but the oracle has not yet written its result, \<open>consumeRandomness\<close> throws before
  \<open>processLottery\<close> is entered; the tick that set \<open>isLotteryRunning\<close> ends with the flag
  still set and the pot not reset, and every later tick, whatever the outside world
  answers, returns at its first line and leaves the state as it is.
\<close>

theorem running_flag_stuck:
  "\<not> isLotteryRunning initialWorld
   \<and> isLotteryRunning (tick (exampleEnv pendingVrf 1000000000 sendOk) initialWorld)
   \<and> currentPotSize (tick (exampleEnv pendingVrf 1000000000 sendOk) initialWorld) = 2000000000
   \<and> (\<forall>e. tick e (tick (exampleEnv pendingVrf 1000000000 sendOk) initialWorld)
           = tick (exampleEnv pendingVrf 1000000000 sendOk) initialWorld)"
proof -
  let ?s = "tick (exampleEnv pendingVrf 1000000000 sendOk) initialWorld"
  have running: "isLotteryRunning ?s" by (simp add: tick_pending)
  then have "\<forall>e. tick e ?s = ?s" by (simp add: tick_skips_while_running)
  moreover have "\<not> isLotteryRunning initialWorld" by (simp add: initialWorld_def)
  moreover have "currentPotSize ?s = 2000000000" by (simp add: tick_pending)
  ultimately show ?thesis using running by blast
qed

text \<open>
  Claim C2 fails on the code. With the traders A (volume 100) and B (volume 300) and
  the random value 250, \<open>selectWinnerFromTraders\<close> picks B at index 1. The scheduler
  does not call it: it takes the random value modulo the number of traders, which is
  index 0, and gives the trader object of A to the \<^verbatim>\<open>PublicKey\<close> constructor. The
  constructor throws, so that nobody is paid, and the tick ends with the running flag
  set and the pot not reset.
\<close>

theorem worker_chooses_unweighted_winner:
  "getTradersWallet (exampleEnv readyVrf 1000000000 sendOk) = Inr exampleTraders
   \<and> fst (consumeRandomness readyVrf 0 initialWorld) = Inr 250
   \<and> selectWinnerFromTraders exampleTraders 250
       = Inr \<lparr>winner = ''B'', winnerIndex = 1, totalWeight = 400, selectionValue = 250\<rparr>
   \<and> workerWinnerIndex exampleTraders 250 = 0
   \<and> NewPublicKey (Some \<lparr>walletAddress = ''A'', volumeUsd = 100\<rparr>)
       \<in> set (trace (tick (exampleEnv readyVrf 1000000000 sendOk) initialWorld))
   \<and> NewPublicKey (Some \<lparr>walletAddress = ''B'', volumeUsd = 300\<rparr>)
       \<notin> set (trace (tick (exampleEnv readyVrf 1000000000 sendOk) initialWorld))
   \<and> (\<forall>key amount. PayoutTx key amount
         \<notin> set (trace (tick (exampleEnv readyVrf 1000000000 sendOk) initialWorld)))
   \<and> isLotteryRunning (tick (exampleEnv readyVrf 1000000000 sendOk) initialWorld)
   \<and> currentPotSize (tick (exampleEnv readyVrf 1000000000 sendOk) initialWorld) = 2000000000"
proof (intro conjI)
  show "getTradersWallet (exampleEnv readyVrf 1000000000 sendOk) = Inr exampleTraders"
    by (simp add: exampleEnv_def)
  show "fst (consumeRandomness readyVrf 0 initialWorld) = Inr 250"
    by (simp add: world_defs consumeRandomness_def all_zero_def bn_of_bytes_def)
  show "selectWinnerFromTraders exampleTraders 250
       = Inr \<lparr>winner = ''B'', winnerIndex = 1, totalWeight = 400, selectionValue = 250\<rparr>"
    by (simp add: exampleTraders_def selectWinnerFromTraders_def weightOf_def bn_mod_def)
  show "workerWinnerIndex exampleTraders 250 = 0"
    by (simp add: exampleTraders_def workerWinnerIndex_def bn_mod_def)
  show "NewPublicKey (Some \<lparr>walletAddress = ''A'', volumeUsd = 100\<rparr>)
       \<in> set (trace (tick (exampleEnv readyVrf 1000000000 sendOk) initialWorld))"
    by (simp add: tick_ready)
  show "NewPublicKey (Some \<lparr>walletAddress = ''B'', volumeUsd = 300\<rparr>)
       \<notin> set (trace (tick (exampleEnv readyVrf 1000000000 sendOk) initialWorld))"
    by (simp add: tick_ready)
  show "\<forall>key amount. PayoutTx key amount
         \<notin> set (trace (tick (exampleEnv readyVrf 1000000000 sendOk) initialWorld))"
    by (simp add: tick_ready)
  show "isLotteryRunning (tick (exampleEnv readyVrf 1000000000 sendOk) initialWorld)"
    by (simp add: tick_ready)
  show "currentPotSize (tick (exampleEnv readyVrf 1000000000 sendOk) initialWorld) = 2000000000"
    by (simp add: tick_ready)
qed

text \<open>
  Claim C3 fails on the code. The scheduler does not call \<open>executeVRFWorkflow\<close>: after
  the commit transaction it reads the result at once. In a world where the result is
  on the account, it reads the random value and chooses a trader with it without any
  poll for fulfillment and without a reveal transaction, where \<open>executeVRFWorkflow\<close> in
  the same world polls, reveals and only then consumes. In a world where the result is
  not yet on the account, the single read fails and is not tried again.
\<close>

theorem worker_skips_poll_and_reveal:
  "trace (tick (exampleEnv readyVrf 1000000000 sendOk) initialWorld) =
     [QueryPositions, BuildClaim 0, ClaimAttempt 0 0, ClaimSend 0 0,
      ClaimConfirmed 0 0, ClaimAttempt 0 1, ClaimSend 0 1,
      ClaimConfirmed 0 1, StatusUpsert 2000000000 False, FetchTraders,
      CreateTx 0, CommitTx 0, LoadResult 0,
      NewPublicKey (Some \<lparr>walletAddress = ''A'', volumeUsd = 100\<rparr>)]
   \<and> (\<forall>acct. RevealTx acct
         \<notin> set (trace (tick (exampleEnv readyVrf 1000000000 sendOk) initialWorld)))
   \<and> (\<forall>acct attempt. Poll acct attempt
         \<notin> set (trace (tick (exampleEnv readyVrf 1000000000 sendOk) initialWorld)))
   \<and> trace (snd (executeVRFWorkflow (vrf (exampleEnv readyVrf 1000000000 sendOk)) 3 initialWorld))
       = [CreateTx 0, CommitTx 0, Poll 0 1, RevealTx 0, LoadResult 0]
   \<and> trace (tick (exampleEnv pendingVrf 1000000000 sendOk) initialWorld) =
       [QueryPositions, BuildClaim 0, ClaimAttempt 0 0, ClaimSend 0 0,
        ClaimConfirmed 0 0, ClaimAttempt 0 1, ClaimSend 0 1,
        ClaimConfirmed 0 1, StatusUpsert 2000000000 False, FetchTraders,
        CreateTx 0, CommitTx 0, LoadResult 0]"
proof -
  have "vrf (exampleEnv readyVrf 1000000000 sendOk) = readyVrf" by (simp add: exampleEnv_def)
  then show ?thesis by (simp add: tick_ready tick_pending workflow_ready)
qed

section \<open>The scheduler in every world\<close>

lemma requestVRF_frame:
  "isLotteryRunning (snd (requestVRF v s)) = isLotteryRunning s
   \<and> currentPotSize (snd (requestVRF v s)) = currentPotSize s"
  by (simp add: requestVRF_def emit_def Let_def split: option.splits sum.splits bool.splits)

lemma consumeRandomness_frame:
  "isLotteryRunning (snd (consumeRandomness v acct s)) = isLotteryRunning s
   \<and> currentPotSize (snd (consumeRandomness v acct s)) = currentPotSize s"
  by (simp add: consumeRandomness_def emit_def Let_def split: option.splits sum.splits)

lemma runRound_fails_in_requestVRF:
  assumes "fst (requestVRF (vrf e) s) = Inl err"
  shows "isLotteryRunning (snd (runRound e traders s)) = isLotteryRunning s
       \<and> currentPotSize (snd (runRound e traders s)) = currentPotSize s"
proof -
  obtain r s1 where r: "requestVRF (vrf e) s = (r, s1)" by (cases "requestVRF (vrf e) s")
  with assms have "r = Inl err" by simp
  with r have "snd (runRound e traders s) = snd (requestVRF (vrf e) s)"
    by (simp add: runRound_def)
  then show ?thesis by (simp add: requestVRF_frame)
qed

lemma runRound_fails_in_consumeRandomness:
  assumes rq: "requestVRF (vrf e) s = (Inr (sig, acct), s1)"
      and cr: "fst (consumeRandomness (vrf e) acct s1) = Inl err"
  shows "isLotteryRunning (snd (runRound e traders s)) = isLotteryRunning s
       \<and> currentPotSize (snd (runRound e traders s)) = currentPotSize s"
proof -
  obtain c s2 where c: "consumeRandomness (vrf e) acct s1 = (c, s2)"
    by (cases "consumeRandomness (vrf e) acct s1")
  with cr have "c = Inl err" by simp
  with rq c have "snd (runRound e traders s) = snd (consumeRandomness (vrf e) acct s1)"
    by (simp add: runRound_def)
  moreover from rq have "s1 = snd (requestVRF (vrf e) s)" by simp
  ultimately show ?thesis by (simp add: consumeRandomness_frame requestVRF_frame)
qed

lemma tick_stuck_without_vrf:
  assumes idle: "\<not> isLotteryRunning s"
      and claimed: "fst (claimFeesForToken e (PROJECT_TOKEN_MINT_ADDRESS e) s)"
      and status: "updateStatus e = None"
      and traders: "getTradersWallet e = Inr traders" "traders \<noteq> []"
      and uninit: "\<not> sbProgram (vrf e)"
  shows "isLotteryRunning (tick e s)"
proof -
  obtain s1 where s1: "claimFeesForToken e (PROJECT_TOKEN_MINT_ADDRESS e) s = (True, s1)"
    using claimed by (cases "claimFeesForToken e (PROJECT_TOKEN_MINT_ADDRESS e) s") auto
  let ?s3 = "emit FetchTraders
               ((emit (StatusUpsert (currentPotSize s1) (isLotteryRunning s1)) s1)
                  \<lparr>isLotteryRunning := True\<rparr>)"
  from uninit have "fst (requestVRF (vrf e) ?s3) = Inl (Error ''VRF not initialized.'')"
    by (simp add: requestVRF_def)
  from runRound_fails_in_requestVRF [OF this]
  have "isLotteryRunning (snd (runRound e traders ?s3))" by (simp add: emit_def)
  with idle s1 status traders show ?thesis by (simp add: tick_def Let_def)
qed

lemma requestVRF_calls:
  "\<exists>new. trace (snd (requestVRF v s)) = trace s @ new \<and> \<not> (\<exists>ev \<in> set new. pollOrReveal ev)"
  by (simp add: requestVRF_def emit_def Let_def split: option.splits sum.splits bool.splits)

lemma consumeRandomness_calls:
  "\<exists>new. trace (snd (consumeRandomness v acct s)) = trace s @ new
         \<and> \<not> (\<exists>ev \<in> set new. pollOrReveal ev)"
  by (simp add: consumeRandomness_def emit_def Let_def split: option.splits sum.splits)

lemma processLottery_calls:
  "\<exists>new. trace (snd (processLottery e w pot s)) = trace s @ new
         \<and> \<not> (\<exists>ev \<in> set new. pollOrReveal ev)"
  by (simp add: processLottery_def processLotteryBody_def emit_def Let_def
        split: option.splits sum.splits prod.splits)

lemma runRound_calls:
  "\<exists>new. trace (snd (runRound e traders s)) = trace s @ new
         \<and> \<not> (\<exists>ev \<in> set new. pollOrReveal ev)"
proof -
  obtain r s1 where rq: "requestVRF (vrf e) s = (r, s1)" by (cases "requestVRF (vrf e) s")
  from requestVRF_calls [of "vrf e" s] rq obtain n1
    where n1: "trace s1 = trace s @ n1" "\<not> (\<exists>ev \<in> set n1. pollOrReveal ev)" by auto
  show ?thesis
  proof (cases r)
    case (Inl err)
    with rq n1 show ?thesis by (simp add: runRound_def)
  next
    case (Inr sa)
    obtain sig acct where sa: "sa = (sig, acct)" by (cases sa)
    obtain c s2 where cr: "consumeRandomness (vrf e) acct s1 = (c, s2)"
      by (cases "consumeRandomness (vrf e) acct s1")
    from consumeRandomness_calls [of "vrf e" acct s1] cr obtain n2
      where n2: "trace s2 = trace s1 @ n2" "\<not> (\<exists>ev \<in> set n2. pollOrReveal ev)" by auto
    show ?thesis
    proof (cases c)
      case (Inl err)
      with rq Inr sa cr n1 n2 show ?thesis by (auto simp: runRound_def)
    next
      case (Inr randomValue)
      let ?i = "workerWinnerIndex traders randomValue"
      let ?chosen = "if ?i < length traders then Some (traders ! ?i) else None"
      let ?s3 = "emit (NewPublicKey ?chosen) s2"
      have n3: "trace ?s3 = trace s @ (n1 @ n2 @ [NewPublicKey ?chosen])"
               "\<not> (\<exists>ev \<in> set (n1 @ n2 @ [NewPublicKey ?chosen]). pollOrReveal ev)"
        using n1 n2 by (auto simp: emit_def)
      show ?thesis
      proof (cases "newPublicKey e ?chosen")
        case (Inl err)
        with rq \<open>r = Inr sa\<close> sa cr Inr
        have "snd (runRound e traders s) = ?s3" by (simp add: runRound_def Let_def)
        with n3 show ?thesis by metis
      next
        case (Inr winnerKey)
        obtain p s4 where pl: "processLottery e winnerKey (currentPotSize ?s3) ?s3 = (p, s4)"
          by (cases "processLottery e winnerKey (currentPotSize ?s3) ?s3")
        from processLottery_calls [of e winnerKey "currentPotSize ?s3" ?s3] pl obtain n4
          where n4: "trace s4 = trace ?s3 @ n4" "\<not> (\<exists>ev \<in> set n4. pollOrReveal ev)" by auto
        have "snd (runRound e traders s) = s4"
          using rq \<open>r = Inr sa\<close> sa cr \<open>c = Inr randomValue\<close> Inr pl
          by (cases p) (simp_all add: runRound_def Let_def)
        moreover from n3 n4
        have "trace s4 = trace s @ ((n1 @ n2 @ [NewPublicKey ?chosen]) @ n4)"
             "\<not> (\<exists>ev \<in> set ((n1 @ n2 @ [NewPublicKey ?chosen]) @ n4). pollOrReveal ev)"
          by auto
        ultimately show ?thesis by metis
      qed
    qed
  qed
qed

lemma runRound_fails_in_newPublicKey:
  assumes rq: "requestVRF (vrf e) s = (Inr (sig, acct), s1)"
      and cr: "consumeRandomness (vrf e) acct s1 = (Inr randomValue, s2)"
      and key: "\<forall>chosen. isl (newPublicKey e chosen)"
  shows "isLotteryRunning (snd (runRound e traders s)) = isLotteryRunning s
       \<and> currentPotSize (snd (runRound e traders s)) = currentPotSize s
       \<and> (\<exists>chosen. trace (snd (runRound e traders s)) = trace s2 @ [NewPublicKey chosen])"
proof -
  let ?i = "workerWinnerIndex traders randomValue"
  let ?chosen = "if ?i < length traders then Some (traders ! ?i) else None"
  from key have "isl (newPublicKey e ?chosen)" by blast
  then obtain err where "newPublicKey e ?chosen = Inl err"
    by (cases "newPublicKey e ?chosen") auto
  with rq cr have r: "snd (runRound e traders s) = emit (NewPublicKey ?chosen) s2"
    by (simp add: runRound_def Let_def)
  from rq have s1: "s1 = snd (requestVRF (vrf e) s)" by simp
  from cr have s2: "s2 = snd (consumeRandomness (vrf e) acct s1)" by simp
  have "isLotteryRunning s2 = isLotteryRunning s" "currentPotSize s2 = currentPotSize s"
    by (simp_all add: s2 consumeRandomness_frame s1 requestVRF_frame)
  moreover have "trace (emit (NewPublicKey ?chosen) s2) = trace s2 @ [NewPublicKey ?chosen]"
    by (simp add: emit_def)
  ultimately show ?thesis unfolding r by (simp add: emit_def)
qed

section \<open>The order of the phases in \<open>executeVRFWorkflow\<close>\<close>

lemma pollLoop_extends: "\<exists>new. trace (snd (pollLoop v acct d a n s)) = trace s @ new"
proof (induction n arbitrary: a s)
  case 0
  then show ?case by simp
next
  case (Suc n)
  let ?s2 = "emit (Sleep d) (emit (Poll acct a) s)"
  from Suc.IH [of "Suc a" ?s2] obtain new
    where "trace (snd (pollLoop v acct d (Suc a) n ?s2)) = trace ?s2 @ new" by blast
  then show ?case
    by (auto simp: Let_def emit_def split: sum.splits)
qed

lemma pollLoop_True:
  "pollLoop v acct d a n s = (True, s')
   \<Longrightarrow> \<exists>pre k. trace s' = trace s @ pre @ [Poll acct k]"
proof (induction n arbitrary: a s)
  case 0
  then show ?case by simp
next
  case (Suc n)
  let ?s1 = "emit (Poll acct a) s"
  let ?s2 = "emit (Sleep d) ?s1"
  show ?case
  proof (cases "\<exists>data. loadData v acct (now s) = Inr data \<and> fulfilled data")
    case True
    with Suc.prems have "s' = ?s1" by (auto simp: Let_def)
    then have "trace s' = trace s @ [] @ [Poll acct a]" by (simp add: emit_def)
    then show ?thesis by blast
  next
    case False
    with Suc.prems have "pollLoop v acct d (Suc a) n ?s2 = (True, s')"
      by (auto simp: Let_def split: sum.splits if_splits)
    from Suc.IH [OF this] obtain pre k where "trace s' = trace ?s2 @ pre @ [Poll acct k]"
      by blast
    then have "trace s' = trace s @ ([Poll acct a, Sleep d] @ pre) @ [Poll acct k]"
      by (simp add: emit_def)
    then show ?thesis by blast
  qed
qed

lemma vrfAttempt_extends: "\<exists>new. trace (snd (vrfAttempt v s)) = trace s @ new"
proof -
  obtain r s1 where rq: "requestVRF v s = (r, s1)" by (cases "requestVRF v s")
  from requestVRF_calls [of v s] rq obtain n1 where n1: "trace s1 = trace s @ n1" by auto
  show ?thesis
  proof (cases r)
    case (Inl err)
    with rq n1 show ?thesis by (simp add: vrfAttempt_def)
  next
    case (Inr sa)
    obtain sig acct where sa: "sa = (sig, acct)" by (cases sa)
    obtain w s2 where wf: "waitForFulfillment v acct 30 5000 s1 = (w, s2)"
      by (cases "waitForFulfillment v acct 30 5000 s1")
    from pollLoop_extends [of v acct 5000 1 30 s1] wf obtain n2
      where n2: "trace s2 = trace s1 @ n2"
      by (auto simp: waitForFulfillment_def split: if_splits prod.splits)
    from consumeRandomness_calls [of v acct "emit (RevealTx acct) s2"] obtain n3
      where n3: "trace (snd (consumeRandomness v acct (emit (RevealTx acct) s2)))
                 = trace s2 @ RevealTx acct # n3"
      by (auto simp: emit_def)
    show ?thesis
      using rq Inr sa wf n1 n2 n3
      by (auto simp: vrfAttempt_def revealRandomness_def emit_def
               split: sum.splits bool.splits)
  qed
qed

lemma vrfAttempt_success_order:
  assumes "vrfAttempt v s = (Inr randomValue, s')"
  shows "\<exists>pre acct k. trace s' = trace s @ pre @ [Poll acct k, RevealTx acct, LoadResult acct]"
proof -
  obtain r s1 where rq: "requestVRF v s = (r, s1)" by (cases "requestVRF v s")
  from requestVRF_calls [of v s] rq obtain n1 where n1: "trace s1 = trace s @ n1" by auto
  from assms rq obtain sig acct where r: "r = Inr (sig, acct)"
    by (cases r) (auto simp: vrfAttempt_def)
  obtain w s2 where wf: "waitForFulfillment v acct 30 5000 s1 = (w, s2)"
    by (cases "waitForFulfillment v acct 30 5000 s1")
  from assms rq r wf have w: "w = Inr True"
    by (auto simp: vrfAttempt_def split: sum.splits bool.splits)
  with wf have init: "sbProgram v" and pl: "pollLoop v acct 5000 1 30 s1 = (True, s2)"
    by (auto simp: waitForFulfillment_def split: if_splits prod.splits)
  from pollLoop_True [OF pl] obtain pre k where n2: "trace s2 = trace s1 @ pre @ [Poll acct k]"
    by blast
  let ?s3 = "emit (RevealTx acct) s2"
  from assms rq r wf w init have cr: "consumeRandomness v acct ?s3 = (Inr randomValue, s')"
    by (auto simp: vrfAttempt_def revealRandomness_def split: sum.splits)
  then have "s' = emit (LoadResult acct) ?s3"
    by (auto simp: consumeRandomness_def Let_def split: if_splits sum.splits option.splits)
  with n1 n2 have "trace s' = trace s @ (n1 @ pre) @ [Poll acct k, RevealTx acct, LoadResult acct]"
    by (simp add: emit_def)
  then show ?thesis by blast
qed

lemma workflowLoop_success_order:
  "workflowLoop v m a n s = (Inr randomValue, s')
   \<Longrightarrow> \<exists>pre acct k. trace s' = trace s @ pre @ [Poll acct k, RevealTx acct, LoadResult acct]"
proof (induction n arbitrary: a s)
  case 0
  then show ?case by simp
next
  case (Suc n)
  obtain r s1 where at: "vrfAttempt v s = (r, s1)" by (cases "vrfAttempt v s")
  show ?case
  proof (cases r)
    case (Inr got)
    with Suc.prems at have "vrfAttempt v s = (Inr randomValue, s')" by simp
    then show ?thesis by (rule vrfAttempt_success_order)
  next
    case (Inl err)
    let ?s2 = "emit (Sleep (2 ^ a * 1000)) s1"
    from Suc.prems at Inl have "workflowLoop v m (Suc a) n ?s2 = (Inr randomValue, s')"
      by (auto split: if_splits)
    from Suc.IH [OF this] obtain pre acct k
      where t: "trace s' = trace ?s2 @ pre @ [Poll acct k, RevealTx acct, LoadResult acct]"
      by blast
    from vrfAttempt_extends [of v s] at obtain n1 where "trace s1 = trace s @ n1" by auto
    with t have "trace s' = trace s @ (n1 @ Sleep (2 ^ a * 1000) # pre)
                   @ [Poll acct k, RevealTx acct, LoadResult acct]"
      by (simp add: emit_def)
    then show ?thesis by blast
  qed
qed

lemma executeVRFWorkflow_success_order:
  "executeVRFWorkflow v maxRetries s = (Inr randomValue, s')
   \<Longrightarrow> \<exists>pre acct k. trace s' = trace s @ pre @ [Poll acct k, RevealTx acct, LoadResult acct]"
  unfolding executeVRFWorkflow_def by (rule workflowLoop_success_order)

end
